theory Spec2Isabelle
  imports Complex_Main
begin

section \<open>Conventions of the embedding\<close>

text \<open>
  The library is Python over torch tensors. In this development

  \<^item> a Python \<open>int\<close> is an \<^typ>\<open>int\<close>, a Python or torch floating-point number is a
    \<^typ>\<open>real\<close> and a complex tensor element is a \<^typ>\<open>complex\<close>: arithmetic on them is
    exact, so rounding, overflow and NaN are outside the model, except where a cast is
    written out (\<open>float32_of_int\<close> in \<open>fft_center\<close>);
  \<^item> a shape (a tuple of axis lengths) is a list;
  \<^item> a tensor is a nested list of rows, its leading axis outermost;
  \<^item> an exception is a value \<open>Inl e\<close> of a sum type.
\<close>

datatype error = IndexError | ShapeError | ValueError | OverflowError | ImportError

section \<open>Tensors and buffers\<close>

text \<open>
  A function that indexes with \<open>...\<close> works on the last two (or three) axes and maps
  over the leading ones. A tensor is either one item, a matrix or a volume, or a batch
  of them (one leading axis).
\<close>

datatype 'a tensor = Plain 'a | Batch "'a list"

fun items :: "'a tensor \<Rightarrow> 'a list" where
  "items (Plain m) = [m]"
| "items (Batch ms) = ms"

fun tmap :: "('a \<Rightarrow> 'b) \<Rightarrow> 'a tensor \<Rightarrow> 'b tensor" where
  "tmap f (Plain m) = Plain (f m)"
| "tmap f (Batch ms) = Batch (map f ms)"

text \<open>
  \<open>shape2\<close> and \<open>shape3\<close> are \<open>t.shape\<close> of a matrix and of a volume; \<open>last_shape2\<close> and
  \<open>last_shape3\<close> are \<open>t.shape[-2:]\<close> and \<open>t.shape[-3:]\<close> of a tensor. A nested list with
  an empty axis does not record the lengths of the axes inside it; they read as 0.
\<close>

definition shape2 :: "'a list list \<Rightarrow> nat \<times> nat" where
  "shape2 m = (case m of [] \<Rightarrow> (0, 0) | r # _ \<Rightarrow> (length m, length r))"

definition shape3 :: "'a list list list \<Rightarrow> nat \<times> nat \<times> nat" where
  "shape3 v =
     (case v of [] \<Rightarrow> (0, 0, 0)
      | p # _ \<Rightarrow> (case p of [] \<Rightarrow> (length v, 0, 0)
                   | r # _ \<Rightarrow> (length v, length p, length r)))"

definition last_shape2 :: "'a list list tensor \<Rightarrow> nat \<times> nat" where
  "last_shape2 t = (case items t of [] \<Rightarrow> (0, 0) | m # _ \<Rightarrow> shape2 m)"

definition last_shape3 :: "'a list list list tensor \<Rightarrow> nat \<times> nat \<times> nat" where
  "last_shape3 t = (case items t of [] \<Rightarrow> (0, 0, 0) | v # _ \<Rightarrow> shape3 v)"

text \<open>
  The shapes the theorems speak of: a matrix of \<open>h\<close> rows of length \<open>w\<close>, a volume of \<open>d\<close>
  such matrices.
\<close>

definition is_matrix :: "nat \<Rightarrow> nat \<Rightarrow> 'a list list \<Rightarrow> bool" where
  "is_matrix h w m \<longleftrightarrow> length m = h \<and> list_all (\<lambda>row. length row = w) m"

definition is_volume :: "nat \<Rightarrow> nat \<Rightarrow> nat \<Rightarrow> 'a list list list \<Rightarrow> bool" where
  "is_volume d h w v \<longleftrightarrow> length v = d \<and> list_all (is_matrix h w) v"

text \<open>
  Functions that write into their argument take the heap, a list of buffers, and the
  address of the argument, and return the heap they leave with their result or their
  exception. \<open>clone\<close> is \<open>t.clone()\<close>: a new buffer with the same contents.
\<close>

type_synonym 'a heap = "'a list"

definition clone :: "'a heap \<Rightarrow> nat \<Rightarrow> 'a heap \<times> nat" where
  "clone heap a = (heap @ [heap ! a], length heap)"

text \<open>
  \<open>torch.fft.ifftshift\<close> along one axis of length \<open>n\<close> rolls it by \<open>-(n // 2)\<close>, and
  \<open>torch.fft.fftshift\<close> by \<open>n // 2\<close>.
\<close>

definition ifftshift :: "'a list \<Rightarrow> 'a list" where
  "ifftshift xs = rotate (length xs div 2) xs"

definition fftshift :: "'a list \<Rightarrow> 'a list" where
  "fftshift xs = rotate (length xs - length xs div 2) xs"

text \<open>
  An assignment \<open>target[...] = source\<close> or \<open>target[...] += source\<close> broadcasts the source
  to the target's shape: an axis of the source must have the target's length or length 1,
  and an axis of length 1 is repeated.
\<close>

definition broadcastable :: "nat \<Rightarrow> nat \<Rightarrow> bool" where
  "broadcastable s t \<longleftrightarrow> s = t \<or> s = 1"

definition expand :: "nat \<Rightarrow> 'a list \<Rightarrow> 'a list" where
  "expand n xs = (if length xs = n then xs else replicate n (hd xs))"

section \<open>DFT indexing utilities (\<open>utils/fft.py\<close>)\<close>

subsection \<open>\<open>rfft_shape_from_signal_shape\<close>\<close>

text \<open>Python's \<open>int(x)\<close> on a float truncates towards zero.\<close>

definition py_int :: "real \<Rightarrow> int" where
  "py_int x = (if 0 \<le> x then \<lfloor>x\<rfloor> else \<lceil>x\<rceil>)"

text \<open>
  \<^verbatim>\<open>
  rfft_shape = list(input_shape)
  rfft_shape[-1] = int((rfft_shape[-1] / 2) + 1)
  return tuple(rfft_shape)
  \<close>
  The function is called on a tuple of Python ints and, from \<open>fft_center\<close>, on a float
  tensor. \<open>to_real\<close> reads an entry as a number for the true division \<open>/\<close>, and
  \<open>of_py_int\<close> stores the Python int that \<open>int(...)\<close> returns back among the entries.
  Index \<open>-1\<close> of an empty list raises.
\<close>

definition rfft_shape_generic ::
  "('a \<Rightarrow> real) \<Rightarrow> (int \<Rightarrow> 'a) \<Rightarrow> 'a list \<Rightarrow> error + 'a list" where
  "rfft_shape_generic to_real of_py_int input_shape =
     (let rfft_shape = input_shape in
      if rfft_shape = [] then Inl IndexError
      else Inr (rfft_shape[length rfft_shape - 1 :=
                  of_py_int (py_int (to_real (rfft_shape ! (length rfft_shape - 1)) / 2 + 1))]))"


subsection \<open>\<open>fft_center\<close>\<close>

text \<open>
  \<open>torch.as_tensor(grid_shape)\<close> makes an int64 tensor of the Python ints, and raises for an
  int outside int64. \<open>.float()\<close> casts it to float32, which has a significand of 24 bits:
  an int of more bits is rounded to the nearest multiple of \<open>2 ^ e\<close>, \<open>e\<close> the number of
  bits beyond 24, and to the even one of two equally near. \<open>bit_length\<close> is Python's
  \<open>int.bit_length\<close>.
\<close>

fun bit_length :: "nat \<Rightarrow> nat" where
  "bit_length n = (if n = 0 then 0 else Suc (bit_length (n div 2)))"

declare bit_length.simps [simp del]

definition round_half_even :: "nat \<Rightarrow> nat \<Rightarrow> nat" where
  "round_half_even e a =
     (let q = a div 2 ^ e;
          r = a mod 2 ^ e
      in (if 2 * r > 2 ^ e \<or> (2 * r = 2 ^ e \<and> odd q) then q + 1 else q) * 2 ^ e)"

definition float32_of_int :: "int \<Rightarrow> real" where
  "float32_of_int k =
     real_of_int (sgn k) * real (round_half_even (bit_length (nat \<bar>k\<bar>) - 24) (nat \<bar>k\<bar>))"

text \<open>
  \<^verbatim>\<open>
  fft_center = torch.zeros(size=(len(grid_shape),))
  grid_shape = torch.as_tensor(grid_shape).float()
  if rfft is True:
      grid_shape = torch.tensor(rfft_shape_from_signal_shape(grid_shape))
  if fftshifted is True:
      fft_center = torch.divide(grid_shape, 2, rounding_mode='floor')
  if rfft is True:
      fft_center[-1] = 0
  return fft_center
  \<close>
  The result is a float tensor; its entries are reals here. Halving a float32 and taking
  the floor are exact. With \<open>rfft\<close> the last entry of the shape is replaced by the int
  \<open>rfft_shape_from_signal_shape\<close> computes from it, cast back to float32 by
  \<open>torch.tensor\<close>; its sum \<open>t / 2 + 1\<close> is taken exactly here, and whatever that entry is,
  \<open>fft_center[-1] = 0\<close> overwrites what comes of it (\<open>fft_center_value\<close> below).
\<close>

definition floor_divide :: "real \<Rightarrow> real \<Rightarrow> real" where
  "floor_divide x y = real_of_int \<lfloor>x / y\<rfloor>"

definition fft_center :: "int list \<Rightarrow> bool \<Rightarrow> bool \<Rightarrow> error + real list" where
  "fft_center grid_shape fftshifted rfft =
     (let fft_center0 = replicate (length grid_shape) (0::real) in
      if list_ex (\<lambda>L. L < - (2 ^ 63) \<or> 2 ^ 63 \<le> L) grid_shape then Inl OverflowError
      else
        (let grid_shape1 = map float32_of_int grid_shape
         in case (if rfft then rfft_shape_generic id float32_of_int grid_shape1
                  else Inr grid_shape1) of
              Inl e \<Rightarrow> Inl e
            | Inr grid_shape2 \<Rightarrow>
                (let fft_center1 =
                       (if fftshifted then map (\<lambda>L. floor_divide L 2) grid_shape2
                        else fft_center0)
                 in if rfft
                    then (if fft_center1 = [] then Inl IndexError
                          else Inr (fft_center1[length fft_center1 - 1 := 0]))
                    else Inr fft_center1)))"

section \<open>Symmetrised spectra (\<open>utils/fft.py\<close>)\<close>

subsection \<open>\<open>symmetrised_dft_to_dft_2d\<close> and \<open>symmetrised_dft_to_dft_3d\<close>\<close>

definition average :: "complex \<Rightarrow> complex \<Rightarrow> complex" where
  "average a b = 0.5 * a + 0.5 * b"

text \<open>\<open>t[..., :, 0] = (0.5 * t[..., :, 0]) + (0.5 * t[..., :, -1])\<close>, on one row.\<close>

definition average_ends :: "complex list \<Rightarrow> complex list" where
  "average_ends row = row[0 := average (row ! 0) (last row)]"

text \<open>\<open>t[..., 0, :] = (0.5 * t[..., 0, :]) + (0.5 * t[..., -1, :])\<close>, on one matrix.\<close>

definition average_end_rows :: "complex list list \<Rightarrow> complex list list" where
  "average_end_rows m = m[0 := map2 average (m ! 0) (last m)]"

text \<open>\<open>t[..., 0, :, :] = (0.5 * t[..., 0, :, :]) + (0.5 * t[..., -1, :, :])\<close>, on one volume.\<close>

definition average_end_planes :: "complex list list list \<Rightarrow> complex list list list" where
  "average_end_planes v = v[0 := map2 (map2 average) (v ! 0) (last v)]"

text \<open>
  \<^verbatim>\<open>
  def symmetrised_dft_to_dft_2d(dft: torch.Tensor, inplace: bool = True):
      if inplace is False:
          dft = dft.clone()
      dft[..., :, 0] = (0.5 * dft[..., :, 0]) + (0.5 * dft[..., :, -1])
      dft[..., 0, :] = (0.5 * dft[..., 0, :]) + (0.5 * dft[..., -1, :])
      return dft[..., :-1, :-1]
  \<close>
  \<open>inplace\<close> is \<open>None\<close> when the caller leaves it to its default. Index 0 or \<open>-1\<close> on an
  axis of length 0 raises. The result is the value of the returned view.
\<close>

definition symmetrised_dft_to_dft_2d ::
  "complex list list tensor heap \<Rightarrow> nat \<Rightarrow> bool option \<Rightarrow>
   complex list list tensor heap \<times> (error + complex list list tensor)" where
  "symmetrised_dft_to_dft_2d heap dft inplace =
     (case (if inplace = Some False then clone heap dft else (heap, dft)) of (heap1, dft1) \<Rightarrow>
      case last_shape2 (heap1 ! dft1) of (h, w) \<Rightarrow>
        if w = 0 then (heap1, Inl IndexError)
        else (let heap2 = heap1[dft1 := tmap (map average_ends) (heap1 ! dft1)] in
              if h = 0 then (heap2, Inl IndexError)
              else (let heap3 = heap2[dft1 := tmap average_end_rows (heap2 ! dft1)]
                    in (heap3, Inr (tmap (\<lambda>m. map butlast (butlast m)) (heap3 ! dft1))))))"

text \<open>
  \<^verbatim>\<open>
  def symmetrised_dft_to_dft_3d(dft: torch.Tensor, inplace: bool = True):
      if inplace is False:
          dft = dft.clone()
      dft[..., :, :, 0] = (0.5 * dft[..., :, :, 0]) + (0.5 * dft[..., :, :, -1])
      dft[..., :, 0, :] = (0.5 * dft[..., :, 0, :]) + (0.5 * dft[..., :, -1, :])
      dft[..., 0, :, :] = (0.5 * dft[..., 0, :, :]) + (0.5 * dft[..., -1, :, :])
      return dft[..., :-1, :-1, :-1]
  \<close>
\<close>

definition symmetrised_dft_to_dft_3d ::
  "complex list list list tensor heap \<Rightarrow> nat \<Rightarrow> bool option \<Rightarrow>
   complex list list list tensor heap \<times> (error + complex list list list tensor)" where
  "symmetrised_dft_to_dft_3d heap dft inplace =
     (case (if inplace = Some False then clone heap dft else (heap, dft)) of (heap1, dft1) \<Rightarrow>
      case last_shape3 (heap1 ! dft1) of (d, h, w) \<Rightarrow>
        if w = 0 then (heap1, Inl IndexError)
        else (let heap2 = heap1[dft1 := tmap (map (map average_ends)) (heap1 ! dft1)] in
              if h = 0 then (heap2, Inl IndexError)
              else (let heap3 = heap2[dft1 := tmap (map average_end_rows) (heap2 ! dft1)] in
                    if d = 0 then (heap3, Inl IndexError)
                    else (let heap4 = heap3[dft1 := tmap average_end_planes (heap3 ! dft1)]
                          in (heap4,
                              Inr (tmap (\<lambda>v. map (map butlast) (map butlast (butlast v)))
                                     (heap4 ! dft1)))))))"

text \<open>
  What the averaging leaves at position \<open>(i, j)\<close> of a matrix with last index \<open>n\<close> on both
  axes, written elementwise: first the column axis, then the row axis on the result of
  the first; and at \<open>(k, i, j)\<close> of a volume, where the first axis comes last.
\<close>

definition desym_cols :: "nat \<Rightarrow> complex list list \<Rightarrow> nat \<Rightarrow> nat \<Rightarrow> complex" where
  "desym_cols n m i j = (if j = 0 then average (m ! i ! 0) (m ! i ! n) else m ! i ! j)"

definition desym_rows :: "nat \<Rightarrow> complex list list \<Rightarrow> nat \<Rightarrow> nat \<Rightarrow> complex" where
  "desym_rows n m i j =
     (if i = 0 then average (desym_cols n m 0 j) (desym_cols n m n j) else desym_cols n m i j)"

definition desym_planes :: "nat \<Rightarrow> complex list list list \<Rightarrow> nat \<Rightarrow> nat \<Rightarrow> nat \<Rightarrow> complex" where
  "desym_planes n v k i j =
     (if k = 0 then average (desym_rows n (v ! 0) i j) (desym_rows n (v ! n) i j)
      else desym_rows n (v ! k) i j)"

subsection \<open>\<open>symmetrised_dft_to_rfft_2d\<close>\<close>

text \<open>\<open>rfft[..., :, r:] *= 0.5\<close>, on one row.\<close>

definition halve_right :: "nat \<Rightarrow> complex list \<Rightarrow> complex list" where
  "halve_right r row = take r row @ map (\<lambda>z. z * 0.5) (drop r row)"

text \<open>\<open>0.5 * torch.flip(torch.conj(rfft[..., :, :dc]), dims=(-2, -1))\<close>, on one matrix.\<close>

definition half_flipped_conj_left :: "nat \<Rightarrow> complex list list \<Rightarrow> complex list list" where
  "half_flipped_conj_left dc m =
     map (map (\<lambda>z. 0.5 * z)) (map rev (rev (map (\<lambda>row. map cnj (take dc row)) m)))"

text \<open>\<open>rfft[..., :, r:] += src\<close>, on one row and the row of the source that falls on it.\<close>

definition add_right :: "nat \<Rightarrow> complex list \<Rightarrow> complex list \<Rightarrow> complex list" where
  "add_right r src row =
     take r row @ map2 (\<lambda>a b. a + b) (drop r row) (expand (length row - r) src)"

text \<open>
  \<open>rfft[..., 0, r:] = (0.5 * rfft[..., 0, r:]) + (0.5 * rfft[..., -1, r:])\<close>, on one matrix.
\<close>

definition average_nyquist_rows :: "nat \<Rightarrow> complex list list \<Rightarrow> complex list list" where
  "average_nyquist_rows r m =
     m[0 := take r (m ! 0) @ map2 average (drop r (m ! 0)) (drop r (last m))]"

text \<open>
  \<^verbatim>\<open>
  def symmetrised_dft_to_rfft_2d(dft: torch.Tensor, inplace: bool = True):
      if dft.ndim == 2:
          dft = einops.rearrange(dft, 'h w -> 1 h w')
      _, h, w = dft.shape
      dc = h // 2
      r = dc + 1  # start of right half-spectrum
      rfft = dft if inplace is True else torch.clone(dft)
      # average hermitian symmetric halves
      rfft[..., :, r:] *= 0.5
      rfft[..., :, r:] += 0.5 * torch.flip(torch.conj(rfft[..., :, :dc]), dims=(-2, -1))
      # average leftover redundant nyquist
      rfft[..., 0, r:] = (0.5 * rfft[..., 0, r:]) + (0.5 * rfft[..., -1, r:])
      # return without redundant nyquist
      rfft = rfft[..., :-1, dc:]
      return torch.fft.ifftshift(rfft, dim=-2)
  \<close>
  \<open>rearrange\<close> returns a view, so with \<open>inplace\<close> true the writes reach the caller's buffer
  also when it is a plain matrix; the clone is a copy of the view, a batch of one. The
  right half has \<open>w - r\<close> columns and the flipped left half \<open>min dc w\<close>: the \<open>+=\<close> raises when
  the second cannot be broadcast to the first, after the \<open>*=\<close> has been done. The result is
  a new tensor, always with the batch axis.
\<close>

definition symmetrised_dft_to_rfft_2d ::
  "complex list list tensor heap \<Rightarrow> nat \<Rightarrow> bool option \<Rightarrow>
   complex list list tensor heap \<times> (error + complex list list tensor)" where
  "symmetrised_dft_to_rfft_2d heap dft inplace =
     (case last_shape2 (heap ! dft) of (h, w) \<Rightarrow>
      let dc = h div 2;
          r = dc + 1
      in case (if inplace = Some False then (heap @ [Batch (items (heap ! dft))], length heap)
               else (heap, dft)) of (heap1, rfft) \<Rightarrow>
         let heap2 = heap1[rfft := tmap (map (halve_right r)) (heap1 ! rfft)] in
         if \<not> broadcastable (min dc w) (w - r) then (heap2, Inl ShapeError)
         else (let heap3 = heap2[rfft := tmap (\<lambda>m. map2 (add_right r) (half_flipped_conj_left dc m) m)
                                         (heap2 ! rfft)] in
               if h = 0 then (heap3, Inl IndexError)
               else (let heap4 = heap3[rfft := tmap (average_nyquist_rows r) (heap3 ! rfft)]
                     in (heap4,
                         Inr (Batch (map (\<lambda>m. ifftshift (map (drop dc) (butlast m)))
                                       (items (heap4 ! rfft))))))))"

text \<open>The three writes of \<open>symmetrised_dft_to_rfft_2d\<close> on one matrix, for \<open>r = dc + 1\<close>.\<close>

definition fold_halves :: "nat \<Rightarrow> complex list list \<Rightarrow> complex list list" where
  "fold_halves dc m =
     average_nyquist_rows (Suc dc)
       (map2 (add_right (Suc dc)) (half_flipped_conj_left dc (map (halve_right (Suc dc)) m))
          (map (halve_right (Suc dc)) m))"

subsection \<open>\<open>rfft_to_symmetrised_dft_2d\<close>\<close>

text \<open>
  A slice assignment \<open>row[dc:] = src\<close> into the \<open>n\<close> last elements of a row, and
  \<open>row[:dc] = src\<close> into its \<open>dc\<close> first: the source is broadcast to the length of the slot.
\<close>

definition put_right :: "nat \<Rightarrow> nat \<Rightarrow> 'a list \<Rightarrow> 'a list \<Rightarrow> 'a list" where
  "put_right dc n row src = take dc row @ expand n src"

definition put_left :: "nat \<Rightarrow> 'a list \<Rightarrow> 'a list \<Rightarrow> 'a list" where
  "put_left dc row src = expand dc src @ drop dc row"

text \<open>\<open>output[..., :-1, dc:] = rfft\<close>, on one matrix.\<close>

definition place_rfft ::
  "nat \<Rightarrow> nat \<Rightarrow> complex list list \<Rightarrow> complex list list \<Rightarrow> complex list list" where
  "place_rfft dc n output rfft = map2 (put_right dc n) (butlast output) rfft @ [last output]"

text \<open>\<open>output[..., -1, dc:] = rfft[..., 0, :]\<close>, on one matrix.\<close>

definition replicate_nyquist ::
  "nat \<Rightarrow> nat \<Rightarrow> complex list list \<Rightarrow> complex list list \<Rightarrow> complex list list" where
  "replicate_nyquist dc n output rfft =
     butlast output @ [put_right dc n (last output) (rfft ! 0)]"

text \<open>
  \<open>output[..., :, :dc] = torch.flip(torch.conj(output[..., :, dc + 1:]), dims=(-2, -1))\<close>, on
  one matrix: \<open>flip\<close> returns a copy, so the right-hand side is read before the write.
\<close>

definition fill_redundant :: "nat \<Rightarrow> complex list list \<Rightarrow> complex list list" where
  "fill_redundant dc output =
     map2 (put_left dc) output
       (map rev (rev (map (\<lambda>row. map cnj (drop (dc + 1) row)) output)))"

text \<open>
  \<^verbatim>\<open>
  def rfft_to_symmetrised_dft_2d(rfft: torch.Tensor) -> torch.Tensor:
      r = rfft.shape[-2]  # lenght of h is unmodified by rfft
      if rfft.ndim == 2:
          output = torch.zeros((r + 1, r + 1), dtype=torch.complex64)
      elif rfft.ndim == 3:
          b = rfft.shape[0]
          output = torch.zeros((b, r + 1, r + 1), dtype=torch.complex64)
      # fftshift full length dims to center DC component
      dc = r // 2
      rfft = torch.fft.fftshift(rfft, dim=(-2,))
      output[..., :-1, dc:] = rfft  # place rfft in output
      output[..., -1, dc:] = rfft[..., 0, :]  # replicate components at Nyquist
      # fill redundant half
      output[..., :, :dc] = torch.flip(torch.conj(output[..., :, dc + 1:]), dims=(-2, -1))
      return output
  \<close>
  The slot \<open>output[..., :-1, dc:]\<close> has \<open>r\<close> rows of \<open>r + 1 - dc\<close> columns: the first
  assignment raises when the \<open>w\<close> columns of \<open>rfft\<close> cannot be broadcast to them. The second
  reads row \<open>0\<close> of \<open>rfft\<close> and raises when there is none. The third writes \<open>dc\<close> columns from
  \<open>r - dc\<close>. The output is a new tensor, with a batch axis exactly when the input has one;
  its elements are \<open>complex64\<close>, here exact complex numbers.
\<close>

definition rfft_to_symmetrised_dft_2d ::
  "complex list list tensor \<Rightarrow> error + complex list list tensor" where
  "rfft_to_symmetrised_dft_2d rfft =
     (case last_shape2 rfft of (r, w) \<Rightarrow>
      let output = replicate (r + 1) (replicate (r + 1) 0);
          dc = r div 2;
          rfft1 = tmap fftshift rfft;
          n = r + 1 - dc
      in if \<not> broadcastable w n then Inl ShapeError
         else if r = 0 then Inl IndexError
         else if \<not> broadcastable (r - dc) dc then Inl ShapeError
         else Inr (tmap (\<lambda>s. fill_redundant dc
                                 (replicate_nyquist dc n (place_rfft dc n output s) s))
                     rfft1))"

text \<open>
  Two notions used to state what the symmetrised spectrum looks like: the right half built
  from a shifted rfft \<open>s\<close> (its rows, then its first row again), and the matrix whose right
  half is \<open>R\<close> and whose left half is the flipped conjugate of the columns of \<open>R\<close> after the
  first.
\<close>

definition right_half :: "complex list list \<Rightarrow> complex list list" where
  "right_half s = s @ [s ! 0]"

definition mirrored :: "complex list list \<Rightarrow> complex list list" where
  "mirrored R = map2 (\<lambda>a b. rev (map cnj (tl a)) @ b) (rev R) R"

subsection \<open>\<open>rfft_to_symmetrised_dft_3d\<close>\<close>

text \<open>\<open>output[..., :-1, :-1, dc:] = rfft\<close>, on one volume.\<close>

definition place_rfft_3d ::
  "nat \<Rightarrow> nat \<Rightarrow> nat \<Rightarrow> complex list list list \<Rightarrow> complex list list list \<Rightarrow> complex list list list"
  where
  "place_rfft_3d dc r n output rfft =
     map2 (\<lambda>plane s. map2 (put_right dc n) (butlast plane) (expand r s) @ [last plane])
       (butlast output) rfft
     @ [last output]"

text \<open>\<open>output[..., :-1, -1, dc:] = rfft[..., :, 0, :]\<close>, on one volume.\<close>

definition nyquist_rows_3d ::
  "nat \<Rightarrow> nat \<Rightarrow> complex list list list \<Rightarrow> complex list list list \<Rightarrow> complex list list list" where
  "nyquist_rows_3d dc n output rfft =
     map2 (\<lambda>plane s. butlast plane @ [put_right dc n (last plane) (s ! 0)]) (butlast output) rfft
     @ [last output]"

text \<open>\<open>output[..., -1, :-1, dc:] = rfft[..., 0, :, :]\<close>, on one volume.\<close>

definition nyquist_plane_3d ::
  "nat \<Rightarrow> nat \<Rightarrow> nat \<Rightarrow> complex list list list \<Rightarrow> complex list list list \<Rightarrow> complex list list list"
  where
  "nyquist_plane_3d dc r n output rfft =
     butlast output
     @ [map2 (put_right dc n) (butlast (last output)) (expand r (rfft ! 0)) @ [last (last output)]]"

text \<open>\<open>output[..., -1, -1, dc:] = rfft[..., 0, 0, :]\<close>, on one volume.\<close>

definition nyquist_corner_3d ::
  "nat \<Rightarrow> nat \<Rightarrow> complex list list list \<Rightarrow> complex list list list \<Rightarrow> complex list list list" where
  "nyquist_corner_3d dc n output rfft =
     butlast output
     @ [butlast (last output) @ [put_right dc n (last (last output)) (rfft ! 0 ! 0)]]"

text \<open>
  \<open>output[..., :, :, :dc] = torch.flip(torch.conj(output[..., :, :, dc + 1:]), dims=(-3, -2, -1))\<close>,
  on one volume.
\<close>

definition fill_redundant_3d :: "nat \<Rightarrow> complex list list list \<Rightarrow> complex list list list" where
  "fill_redundant_3d dc output =
     map2 (map2 (put_left dc)) output
       (map (map rev) (map rev (rev (map (map (\<lambda>row. map cnj (drop (dc + 1) row))) output))))"

text \<open>
  \<^verbatim>\<open>
  def rfft_to_symmetrised_dft_3d(rfft: torch.Tensor) -> torch.Tensor:
      r = rfft.shape[-3]  # input dim length
      if rfft.ndim == 3:
          output = torch.zeros((r + 1, r + 1, r + 1), dtype=torch.complex64)
      elif rfft.ndim == 4:
          b = rfft.shape[0]
          output = torch.zeros((b, r + 1, r + 1, r + 1), dtype=torch.complex64)
      # fftshift full length dims (i.e. not -1) to center DC component
      rfft = torch.fft.fftshift(rfft, dim=(-3, -2))
      # place rfft in output
      dc = r // 2  # index for DC component
      output[..., :-1, :-1, dc:] = rfft
      # replicate components at nyquist (symmetrise)
      output[..., :-1, -1, dc:] = rfft[..., :, 0, :]
      output[..., -1, :-1, dc:] = rfft[..., 0, :, :]
      output[..., -1, -1, dc:] = rfft[..., 0, 0, :]
      # fill redundant half-spectrum
      output[..., :, :, :dc] = torch.flip(torch.conj(output[..., :, :, dc + 1:]),
                                          dims=(-3, -2, -1))
      return output
  \<close>
  The slot of the first assignment has \<open>r\<close> planes of \<open>r\<close> rows of \<open>r + 1 - dc\<close> columns: it
  raises when the \<open>h\<close> rows and \<open>w\<close> columns of \<open>rfft\<close> cannot be broadcast to them. The next
  two read row \<open>0\<close> and plane \<open>0\<close> of \<open>rfft\<close> and raise when there is none. The last writes
  \<open>dc\<close> columns from \<open>r - dc\<close>.
\<close>

definition rfft_to_symmetrised_dft_3d ::
  "complex list list list tensor \<Rightarrow> error + complex list list list tensor" where
  "rfft_to_symmetrised_dft_3d rfft =
     (case last_shape3 rfft of (r, h, w) \<Rightarrow>
      let output = replicate (r + 1) (replicate (r + 1) (replicate (r + 1) 0));
          rfft1 = tmap (\<lambda>v. fftshift (map fftshift v)) rfft;
          dc = r div 2;
          n = r + 1 - dc
      in if \<not> (broadcastable h r \<and> broadcastable w n) then Inl ShapeError
         else if h = 0 then Inl IndexError
         else if r = 0 then Inl IndexError
         else if \<not> broadcastable (r - dc) dc then Inl ShapeError
         else Inr (tmap (\<lambda>s. fill_redundant_3d dc
                                 (nyquist_corner_3d dc n
                                    (nyquist_plane_3d dc r n
                                       (nyquist_rows_3d dc n (place_rfft_3d dc r n output s) s) s) s))
                     rfft1))"

section \<open>3D shape masks (\<open>shapes/shapes_3d.py\<close>)\<close>

type_synonym vec3 = "real \<times> real \<times> real"

text \<open>
  \<open>image_shape: tuple[int, int, int] | int\<close>: the function tests
  \<open>isinstance(image_shape, int)\<close> and turns an int \<open>n\<close> into \<open>(n, n, n)\<close>.
\<close>

datatype image_shape = Side nat | Shape "nat \<times> nat \<times> nat"

fun as_shape3 :: "image_shape \<Rightarrow> nat \<times> nat \<times> nat" where
  "as_shape3 (Side n) = (n, n, n)"
| "as_shape3 (Shape s) = s"

text \<open>
  Modelled from the spec: \<open>dft_center\<close>, which \<open>shapes_3d.py\<close> imports from
  \<open>libtilt.utils.fft\<close> and that file does not define. The spec gives the default centre
  as "the frequency-shifted DFT-center convention of 4.1 applied to the non-reduced,
  shifted case", and that convention as: "if not shifted, DC is always at index 0 on
  every axis. If shifted, each axis' DC index is \<open>floor(L/2)\<close> ... If the rfft flag is set,
  the DC index on the reduced axis is forced to 0". The keyword arguments are \<open>rfft\<close> and
  \<open>fftshifted\<close>.
\<close>

definition dft_center :: "nat \<times> nat \<times> nat \<Rightarrow> bool \<Rightarrow> bool \<Rightarrow> error + vec3" where
  "dft_center image_shape rfft fftshifted =
     (case image_shape of (d, h, w) \<Rightarrow>
        Inr (if fftshifted then real (d div 2) else 0,
             if fftshifted then real (h div 2) else 0,
             if rfft then 0 else if fftshifted then real (w div 2) else 0))"

text \<open>
  Modelled from the spec: \<open>coordinate_grid\<close> (\<open>libtilt.grids\<close>, not among the sources):
  "given an image shape, a center point, ... returns a dense array of per-voxel
  coordinates ... relative to the given center, in the same axis order as the image
  shape". The entry at voxel \<open>(z, y, x)\<close> is the offset \<open>(z - c\<^sub>0, y - c\<^sub>1, x - c\<^sub>2)\<close>.
\<close>

definition coordinate_grid :: "nat \<times> nat \<times> nat \<Rightarrow> vec3 \<Rightarrow> vec3 list list list" where
  "coordinate_grid image_shape center =
     (case image_shape of (d, h, w) \<Rightarrow> case center of (c0, c1, c2) \<Rightarrow>
        map (\<lambda>z. map (\<lambda>y. map (\<lambda>x. (real z - c0, real y - c1, real x - c2)) [0..<w]) [0..<h])
          [0..<d])"

text \<open>
  Modelled from the spec: \<open>add_soft_edge_3d\<close> (\<open>libtilt.shapes.soft_edge\<close>, not among the
  sources): "a smoothing radius of 0 must return the input mask unchanged (cast to
  real-valued 0/1)". What it returns for another radius is the parameter \<open>smooth\<close>.
\<close>

definition add_soft_edge_3d ::
  "(bool list list list \<Rightarrow> real \<Rightarrow> real list list list) \<Rightarrow>
   bool list list list \<Rightarrow> real \<Rightarrow> real list list list" where
  "add_soft_edge_3d smooth mask1 smoothing_radius =
     (if smoothing_radius = 0 then map (map (map (\<lambda>b. if b then 1 else 0))) mask1
      else smooth mask1 smoothing_radius)"

text \<open>
  \<^verbatim>\<open>
  if isinstance(image_shape, int):
      image_shape = (image_shape, image_shape, image_shape)
  if center is None:
      center = dft_center(image_shape, rfft=False, fftshifted=True)
  coordinates = coordinate_grid(image_shape=image_shape, center=center, device=device)
  dd, dh, dw = dimensions[0] / 2, dimensions[1] / 2, dimensions[2] / 2
  depth_mask = torch.logical_and(coordinates[..., 0] > -dh, coordinates[..., 0] < dh)
  height_mask = torch.logical_and(coordinates[..., 1] > -dw, coordinates[..., 1] < dw)
  width_mask = torch.logical_and(coordinates[..., 2] > -dw, coordinates[..., 2] < dw)
  mask = einops.rearrange([depth_mask, height_mask, width_mask], 'dhw d h w -> d h w dhw')
  mask = torch.all(mask, dim=-1)
  return add_soft_edge_3d(mask, smoothing_radius=smoothing_radius)
  \<close>
  The three masks are stacked on a last axis and reduced with \<open>all\<close>; \<open>device\<close> only
  places the tensors and is left out. (\<open>mask1\<close> is the source's \<open>mask\<close>, a name HOL has
  taken.)
\<close>

definition all_last3 ::
  "bool list list list \<Rightarrow> bool list list list \<Rightarrow> bool list list list \<Rightarrow> bool list list list"
  where
  "all_last3 a b c =
     map2 (\<lambda>pa (pb, pc). map2 (\<lambda>ra (rb, rc). map2 (\<lambda>va (vb, vc). va \<and> vb \<and> vc) ra (zip rb rc))
                              pa (zip pb pc))
       a (zip b c)"

definition cuboid ::
  "(bool list list list \<Rightarrow> real \<Rightarrow> real list list list) \<Rightarrow>
   vec3 \<Rightarrow> image_shape \<Rightarrow> vec3 option \<Rightarrow> real \<Rightarrow> error + real list list list" where
  "cuboid smooth dimensions image_shape center smoothing_radius =
     (let image_shape1 = as_shape3 image_shape in
      case (case center of None \<Rightarrow> dft_center image_shape1 False True | Some c \<Rightarrow> Inr c) of
        Inl e \<Rightarrow> Inl e
      | Inr center1 \<Rightarrow>
          (let coordinates = coordinate_grid image_shape1 center1;
               dd = fst dimensions / 2;
               dh = fst (snd dimensions) / 2;
               dw = snd (snd dimensions) / 2;
               depth_mask = map (map (map (\<lambda>c. fst c > - dh \<and> fst c < dh))) coordinates;
               height_mask =
                 map (map (map (\<lambda>c. fst (snd c) > - dw \<and> fst (snd c) < dw))) coordinates;
               width_mask =
                 map (map (map (\<lambda>c. snd (snd c) > - dw \<and> snd (snd c) < dw))) coordinates;
               mask1 = all_last3 depth_mask height_mask width_mask
           in Inr (add_soft_edge_3d smooth mask1 smoothing_radius)))"

section \<open>Central-slice extraction (\<open>projection/fourier.py\<close>)\<close>

text \<open>
  Modelled from the spec: \<open>array_to_grid_sample\<close> (\<open>libtilt.utils.coordinates\<close>, not among
  the sources): "given an array of array-index coordinates and the shape of the array
  they index into, returns coordinates linearly remapped per axis from \<open>[0, N-1]\<close> to
  \<open>[-1, 1]\<close>". The spec says nothing about the order of the components; the result
  keeps that of the argument.
\<close>

definition remap_axis :: "nat \<Rightarrow> real \<Rightarrow> real" where
  "remap_axis n c = 2 * c / (real n - 1) - 1"

definition array_to_grid_sample :: "nat \<times> nat \<times> nat \<Rightarrow> vec3 \<Rightarrow> vec3" where
  "array_to_grid_sample array_shape c =
     (case array_shape of (n0, n1, n2) \<Rightarrow> case c of (c0, c1, c2) \<Rightarrow>
        (remap_axis n0 c0, remap_axis n1 c1, remap_axis n2 c2))"

text \<open>
  \<open>torch.nn.functional.grid_sample\<close> on one channel of a volumetric input at one grid
  point, with \<open>mode='bilinear'\<close>, \<open>padding_mode='border'\<close>, \<open>align_corners=True\<close>, as
  torch documents it: component 0 of the grid point addresses the last axis, each
  component is mapped from \<open>[-1, 1]\<close> to \<open>[0, size - 1]\<close> and clipped to that range, and
  the eight neighbours are blended trilinearly, a neighbour outside the volume counting
  for nothing.
\<close>

definition unnormalize :: "nat \<Rightarrow> real \<Rightarrow> real" where
  "unnormalize n g = (g + 1) / 2 * (real n - 1)"

definition clip_coordinate :: "nat \<Rightarrow> real \<Rightarrow> real" where
  "clip_coordinate n x = min (real n - 1) (max x 0)"

definition voxel_or_zero :: "real list list list \<Rightarrow> int \<Rightarrow> int \<Rightarrow> int \<Rightarrow> real" where
  "voxel_or_zero v z y x =
     (case shape3 v of (D, H, W) \<Rightarrow>
        if 0 \<le> z \<and> z < int D \<and> 0 \<le> y \<and> y < int H \<and> 0 \<le> x \<and> x < int W
        then v ! nat z ! nat y ! nat x else 0)"

definition grid_sample_border :: "real list list list \<Rightarrow> vec3 \<Rightarrow> real" where
  "grid_sample_border v g =
     (case shape3 v of (D, H, W) \<Rightarrow> case g of (gx, gy, gz) \<Rightarrow>
        (let ix = clip_coordinate W (unnormalize W gx);
             iy = clip_coordinate H (unnormalize H gy);
             iz = clip_coordinate D (unnormalize D gz);
             x0 = \<lfloor>ix\<rfloor>; y0 = \<lfloor>iy\<rfloor>; z0 = \<lfloor>iz\<rfloor>;
             tx = ix - real_of_int x0; ty = iy - real_of_int y0; tz = iz - real_of_int z0
         in voxel_or_zero v z0 y0 x0 * (1 - tz) * (1 - ty) * (1 - tx)
          + voxel_or_zero v z0 y0 (x0 + 1) * (1 - tz) * (1 - ty) * tx
          + voxel_or_zero v z0 (y0 + 1) x0 * (1 - tz) * ty * (1 - tx)
          + voxel_or_zero v z0 (y0 + 1) (x0 + 1) * (1 - tz) * ty * tx
          + voxel_or_zero v (z0 + 1) y0 x0 * tz * (1 - ty) * (1 - tx)
          + voxel_or_zero v (z0 + 1) y0 (x0 + 1) * tz * (1 - ty) * tx
          + voxel_or_zero v (z0 + 1) (y0 + 1) x0 * tz * ty * (1 - tx)
          + voxel_or_zero v (z0 + 1) (y0 + 1) (x0 + 1) * tz * ty * tx))"

text \<open>
  \<^verbatim>\<open>
  dft = einops.rearrange(torch.view_as_real(dft), 'd h w complex -> complex d h w')
  n_slices = slice_coordinates.shape[0]
  dft = einops.repeat(dft, 'complex d h w -> b complex d h w', b=n_slices)
  slice_coordinates = array_to_grid_sample(slice_coordinates, array_shape=dft.shape[-3:])
  slice_coordinates = einops.rearrange(slice_coordinates, 'b h w zyx -> b 1 h w zyx')
  samples = F.grid_sample(input=dft, grid=slice_coordinates, mode='bilinear',
                          padding_mode='border', align_corners=True)
  # zero out samples from outside of cube
  inside = torch.logical_or(slice_coordinates > 0, slice_coordinates < 1)
  inside = torch.all(inside, dim=-1)  # (b, d, h, w)
  inside = einops.repeat(inside, 'b d h w -> b 2 d h w')  # add channel dim
  samples[~inside] *= 0
  samples = einops.rearrange(samples, 'b complex 1 h w -> b h w complex')
  samples = torch.view_as_complex(samples.contiguous())
  return samples  # (b, h, w)
  \<close>
  The real and the imaginary part of the volume are two channels, sampled at the same
  grid points: \<open>grid_sample\<close> is the sampler of one channel at one point and
  \<open>to_grid\<close> the coordinate conversion, both parameters. The slice coordinates are a
  \<open>(b, h, w)\<close> nested list of points; the axis of length 1 that the source inserts and
  removes is not represented.
\<close>

definition extract_slices ::
  "(real list list list \<Rightarrow> vec3 \<Rightarrow> real) \<Rightarrow> (nat \<times> nat \<times> nat \<Rightarrow> vec3 \<Rightarrow> vec3) \<Rightarrow>
   complex list list list \<Rightarrow> vec3 list list list \<Rightarrow> complex list list list" where
  "extract_slices grid_sample to_grid dft slice_coordinates =
     (let dft_re = map (map (map Re)) dft;
          dft_im = map (map (map Im)) dft;
          slice_coordinates1 = map (map (map (to_grid (shape3 dft)))) slice_coordinates;
          samples_re = map (map (map (grid_sample dft_re))) slice_coordinates1;
          samples_im = map (map (map (grid_sample dft_im))) slice_coordinates1;
          inside =
            map (map (map (\<lambda>c. (fst c > 0 \<or> fst c < 1) \<and> (fst (snd c) > 0 \<or> fst (snd c) < 1)
                                \<and> (snd (snd c) > 0 \<or> snd (snd c) < 1))))
              slice_coordinates1;
          samples_re1 = map2 (map2 (map2 (\<lambda>s i. if \<not> i then s * 0 else s))) samples_re inside;
          samples_im1 = map2 (map2 (map2 (\<lambda>s i. if \<not> i then s * 0 else s))) samples_im inside
      in map2 (map2 (map2 Complex)) samples_re1 samples_im1)"

subsection \<open>\<open>project\<close>\<close>

text \<open>
  \<open>project\<close> calls torch's FFTs and four helpers of the library that are not among the
  sources. They are the fields of an environment, each with the arguments \<open>project\<close>
  fixes:

  \<^item> \<open>fftshift_volume\<close> is \<open>fftshift_3d(volume, rfft=False)\<close>, \<open>fftshift_dft\<close> is
    \<open>fftshift_3d(dft, rfft=True)\<close>;
  \<^item> \<open>rfftn\<close> is \<open>torch.fft.rfftn\<close> over the three axes and \<open>irfftn\<close> is
    \<open>torch.fft.irfftn\<close> over the last two axes, on one image of the batch;
  \<^item> \<open>fftfreq_central_slice\<close> gives the \<open>(h, w, 3)\<close> grid for \<open>rfft=True, fftshift=True\<close>;
  \<^item> \<open>fftfreq_to_dft_coordinates\<close> converts one frequency point for \<open>rfft=True\<close> (the spec:
    it maps "each axis' frequency range" to array indices, point by point);
  \<^item> \<open>sampler\<close> and \<open>to_sample_grid\<close> are the two parameters of \<open>extract_slices\<close>;
  \<^item> \<open>napari_viewer\<close> is what comes of lines 133 to 146 for the grid they display:
    \<^verbatim>\<open>
    import napari
    import numpy as np
    viewer = napari.Viewer()
    viewer.add_points(...)
    viewer.add_points(einops.rearrange(grid, '... c -> (...) c').numpy(), size=1)
    viewer.add_points([10, 10, 0], face_color='red', size=1)
    napari.run()
    \<close>
    \<open>napari.run()\<close> returns when the window is closed. The outcome is \<open>None\<close> when
    the window is never closed and the lines do not return, \<open>Some (Inl e)\<close> when they raise
    (napari cannot be imported, there is no display), and \<open>Some (Inr ())\<close> when the window
    has been closed. The viewer is taken to read the grid and not to write to it.
\<close>

record project_env =
  fftshift_volume :: "real list list list \<Rightarrow> real list list list"
  rfftn :: "real list list list \<Rightarrow> complex list list list"
  fftshift_dft :: "complex list list list \<Rightarrow> complex list list list"
  fftfreq_central_slice :: "nat \<times> nat \<times> nat \<Rightarrow> vec3 list list"
  fftfreq_to_dft_coordinates :: "nat \<times> nat \<times> nat \<Rightarrow> vec3 \<Rightarrow> vec3"
  sampler :: "real list list list \<Rightarrow> vec3 \<Rightarrow> real"
  to_sample_grid :: "nat \<times> nat \<times> nat \<Rightarrow> vec3 \<Rightarrow> vec3"
  irfftn :: "complex list list \<Rightarrow> real list list"
  napari_viewer :: "vec3 list list list \<Rightarrow> (error + unit) option"

type_synonym mat3 = "vec3 \<times> vec3 \<times> vec3"

text \<open>\<open>F.pad(volume, pad=[pad_length] * 6, mode='constant', value=0)\<close>.\<close>

definition pad_axis :: "nat \<Rightarrow> 'a \<Rightarrow> 'a list \<Rightarrow> 'a list" where
  "pad_axis p z xs = replicate p z @ xs @ replicate p z"

definition pad_volume :: "nat \<Rightarrow> real list list list \<Rightarrow> real list list list" where
  "pad_volume p v =
     (case shape3 v of (d, h, w) \<Rightarrow>
        (let zero_row = replicate (w + 2 * p) 0;
             zero_plane = replicate (h + 2 * p) zero_row
         in pad_axis p zero_plane (map (\<lambda>plane. pad_axis p zero_row (map (pad_axis p 0) plane)) v)))"

text \<open>\<open>torch.flip(grid, dims=(-1, ))\<close> on the axis of the three components.\<close>

definition flip_last :: "vec3 \<Rightarrow> vec3" where
  "flip_last c = (snd (snd c), fst (snd c), fst c)"

text \<open>\<open>rotation_matrices @ grid\<close>: a \<open>3 \<times> 3\<close> matrix, given by its rows, times a point.\<close>

definition dot3 :: "vec3 \<Rightarrow> vec3 \<Rightarrow> real" where
  "dot3 r c = fst r * fst c + fst (snd r) * fst (snd c) + snd (snd r) * snd (snd c)"

definition matvec :: "mat3 \<Rightarrow> vec3 \<Rightarrow> vec3" where
  "matvec m c = (dot3 (fst m) c, dot3 (fst (snd m)) c, dot3 (snd (snd m)) c)"

text \<open>
  \<^verbatim>\<open>
  grid = fftfreq_central_slice(image_shape=volume.shape, rfft=True, fftshift=True, ...)
  if zyx is False:
      grid = torch.flip(grid, dims=(-1, ))
  rotation_matrices = einops.rearrange(rotation_matrices, 'b i j -> b 1 1 i j')
  grid = einops.rearrange(grid, 'h w coords -> h w coords 1')
  grid = rotation_matrices @ grid
  grid = einops.rearrange(grid, 'b h w coords 1 -> b h w coords')
  if zyx is False:  # to zyx if currently xyz
      grid = torch.flip(grid, dims=(-1, ))
  \<close>
\<close>

definition rotated_grid ::
  "project_env \<Rightarrow> nat \<times> nat \<times> nat \<Rightarrow> mat3 list \<Rightarrow> bool \<Rightarrow> vec3 list list list" where
  "rotated_grid env volume_shape rotation_matrices zyx =
     (let grid = fftfreq_central_slice env volume_shape;
          grid1 = (if \<not> zyx then map (map flip_last) grid else grid);
          grid2 = map (\<lambda>m. map (map (matvec m)) grid1) rotation_matrices
      in if \<not> zyx then map (map (map flip_last)) grid2 else grid2)"

text \<open>
  \<^verbatim>\<open>
  in_redundant_half_mask = grid[..., 2] < 0
  in_redundant_half_mask = einops.repeat(in_redundant_half_mask, '... -> ... 3')
  grid[in_redundant_half_mask] *= -1
  \<close>
\<close>

definition in_redundant_half_mask :: "vec3 list list list \<Rightarrow> (bool \<times> bool \<times> bool) list list list"
  where
  "in_redundant_half_mask grid =
     map (map (map (\<lambda>m. (m, m, m)))) (map (map (map (\<lambda>c. snd (snd c) < 0))) grid)"

definition negate_masked ::
  "(bool \<times> bool \<times> bool) list list list \<Rightarrow> vec3 list list list \<Rightarrow> vec3 list list list" where
  "negate_masked mask3 grid =
     map2 (map2 (map2 (\<lambda>c m. (if fst m then fst c * (- 1) else fst c,
                               if fst (snd m) then fst (snd c) * (- 1) else fst (snd c),
                               if snd (snd m) then snd (snd c) * (- 1) else snd (snd c)))))
       grid mask3"

text \<open>
  \<^verbatim>\<open>
  projections[in_redundant_half_mask[..., 0]] = torch.conj(projections[in_redundant_half_mask[..., 0]])
  \<close>
\<close>

definition conjugate_masked ::
  "(bool \<times> bool \<times> bool) list list list \<Rightarrow> complex list list list \<Rightarrow> complex list list list"
  where
  "conjugate_masked mask3 projections =
     map2 (map2 (map2 (\<lambda>s m. if fst m then cnj s else s))) projections mask3"

text \<open>The Python slice \<open>xs[p:-p]\<close> for \<open>p \<ge> 0\<close>; \<open>xs[0:-0]\<close> is \<open>xs[0:0]\<close>, the empty list.\<close>

definition slice_both :: "nat \<Rightarrow> 'a list \<Rightarrow> 'a list" where
  "slice_both p xs = (if p = 0 then [] else drop p (take (length xs - p) xs))"

text \<open>
  \<^verbatim>\<open>
  if pad is True:
      pad_length = volume.shape[-1] // 2
      volume = F.pad(volume, pad=[pad_length] * 6, mode='constant', value=0)
  dft = fftshift_3d(volume, rfft=False)
  dft = torch.fft.rfftn(dft, dim=(-3, -2, -1))
  dft = fftshift_3d(dft, rfft=True)
  grid = ...                                   # rotated_grid
  in_redundant_half_mask = grid[..., 2] < 0
  in_redundant_half_mask = einops.repeat(in_redundant_half_mask, '... -> ... 3')
  grid[in_redundant_half_mask] *= -1
  grid = fftfreq_to_dft_coordinates(frequencies=grid, image_shape=volume.shape, rfft=True)
  ...                                          # napari_viewer
  projections = extract_slices(dft, grid)  # (b, h, w)
  projections[in_redundant_half_mask[..., 0]] = torch.conj(projections[in_redundant_half_mask[..., 0]])
  projections = torch.fft.ifftshift(projections, dim=(-2, ))
  projections = torch.fft.irfftn(projections, dim=(-2, -1))
  projections = torch.fft.ifftshift(projections, dim=(-2, ))
  if pad is True:
      projections = projections[:, pad_length:-pad_length, pad_length:-pad_length]
  return torch.real(projections)
  \<close>
  The result is \<open>None\<close> when the viewer never returns, the viewer's exception when it
  raises, and the projections otherwise.
\<close>

definition project ::
  "project_env \<Rightarrow> real list list list \<Rightarrow> mat3 list \<Rightarrow> bool \<Rightarrow> bool \<Rightarrow>
   (error + real list list list) option"
  where
  "project env volume rotation_matrices zyx pad =
     (let pad_length = snd (snd (shape3 volume)) div 2;
          volume1 = (if pad then pad_volume pad_length volume else volume);
          dft = fftshift_dft env (rfftn env (fftshift_volume env volume1));
          grid = rotated_grid env (shape3 volume1) rotation_matrices zyx;
          mask3 = in_redundant_half_mask grid;
          grid1 = negate_masked mask3 grid;
          grid2 = map (map (map (fftfreq_to_dft_coordinates env (shape3 volume1)))) grid1
      in case napari_viewer env grid2 of
           None \<Rightarrow> None
         | Some (Inl e) \<Rightarrow> Some (Inl e)
         | Some (Inr window_closed) \<Rightarrow>
             (let projections = extract_slices (sampler env) (to_sample_grid env) dft grid2;
                  projections0 = conjugate_masked mask3 projections;
                  projections1 = map ifftshift projections0;
                  projections2 = map (irfftn env) projections1;
                  projections3 = map ifftshift projections2
              in Some (Inr (if pad
                            then map (\<lambda>image. map (slice_both pad_length)
                                                 (slice_both pad_length image))
                                   projections3
                            else projections3))))"

section \<open>Shape utilities: verified properties\<close>


lemma update_last_Suc: "xs \<noteq> [] \<Longrightarrow> xs[length xs - Suc 0 := v] = butlast xs @ [v]"
  by (induction xs rule: rev_induct) (simp_all add: list_update_append)

lemma update_last: "xs \<noteq> [] \<Longrightarrow> xs[length xs - 1 := v] = butlast xs @ [v]"
  by (simp add: update_last_Suc)



lemma floor_divide_two: "floor_divide (real_of_int L) 2 = real_of_int (L div 2)"
  by (simp add: floor_divide_def floor_divide_of_int_eq [of L 2, simplified])

lemma rfft_shape_generic_last:
  "xs \<noteq> [] \<Longrightarrow> \<exists>v. rfft_shape_generic id f xs = Inr (butlast xs @ [v])"
  by (simp add: rfft_shape_generic_def update_last_Suc)

lemma bit_length_le: "a < 2 ^ n \<Longrightarrow> bit_length a \<le> n"
proof (induction n arbitrary: a)
  case 0
  then show ?case by (simp add: bit_length.simps)
next
  case (Suc n)
  then have "a div 2 < 2 ^ n" by auto
  from Suc.IH [OF this] show ?case
    by (subst bit_length.simps) simp
qed

lemma bit_length_exact: "2 ^ n \<le> a \<Longrightarrow> a < 2 ^ Suc n \<Longrightarrow> bit_length a = Suc n"
proof (induction n arbitrary: a)
  case 0
  then have "a = 1" by simp
  then show ?case by (simp add: bit_length.simps [of "Suc 0"] bit_length.simps [of 0])
next
  case (Suc n)
  then have "2 ^ n \<le> a div 2" "a div 2 < 2 ^ Suc n" by auto
  from Suc.IH [OF this] Suc.prems show ?case
    by (subst bit_length.simps) auto
qed

lemma round_half_even_0: "round_half_even 0 a = a"
  by (simp add: round_half_even_def)

text \<open>float32 holds every int of absolute value up to \<open>2 ^ 24\<close> exactly.\<close>

lemma float32_of_int_exact:
  assumes "\<bar>k\<bar> \<le> 2 ^ 24"
  shows "float32_of_int k = real_of_int k"
proof -
  let ?a = "nat \<bar>k\<bar>"
  have r: "round_half_even (bit_length ?a - 24) ?a = ?a"
  proof (cases "\<bar>k\<bar> = 2 ^ 24")
    case True
    then have a: "?a = 2 ^ 24" by simp
    have "bit_length (2 ^ 24 :: nat) = Suc 24"
      by (rule bit_length_exact) simp_all
    then show ?thesis
      unfolding a by (simp add: round_half_even_def)
  next
    case False
    with assms have "?a < 2 ^ 24" by simp
    from bit_length_le [OF this] show ?thesis
      by (simp add: round_half_even_0)
  qed
  have "float32_of_int k = real_of_int (sgn k * \<bar>k\<bar>)"
    unfolding float32_of_int_def r by simp
  then show ?thesis by (simp add: mult_sgn_abs)
qed

lemma float32_of_int_16777219: "float32_of_int 16777219 = 16777220"
proof -
  have a: "nat \<bar>16777219 :: int\<bar> = 16777219" by simp
  have "bit_length (16777219 :: nat) = Suc 24"
    by (rule bit_length_exact) simp_all
  then show ?thesis
    unfolding float32_of_int_def a by (simp add: round_half_even_def)
qed

text \<open>
  What \<open>fft_center\<close> returns for ints of int64: the halved casts, and 0 in place of the
  last one with \<open>rfft\<close>.
\<close>

lemma fft_center_value:
  assumes "rfft \<Longrightarrow> grid_shape \<noteq> []"
    and "\<not> list_ex (\<lambda>L. L < - (2 ^ 63) \<or> 2 ^ 63 \<le> L) grid_shape"
  shows "fft_center grid_shape fftshifted rfft
           = Inr (let c = (if fftshifted
                           then map (\<lambda>L. floor_divide (float32_of_int L) 2) grid_shape
                           else replicate (length grid_shape) 0)
                  in if rfft then butlast c @ [0] else c)"
proof (cases rfft)
  case False
  then show ?thesis
    using assms(2) by (simp add: fft_center_def comp_def)
next
  case True
  then have ne: "grid_shape \<noteq> []" using assms(1) by simp
  then have ne': "map float32_of_int grid_shape \<noteq> []" by simp
  from rfft_shape_generic_last [OF ne'] obtain v where
    v: "rfft_shape_generic id float32_of_int (map float32_of_int grid_shape)
          = Inr (butlast (map float32_of_int grid_shape) @ [v])" ..
  show ?thesis
  proof (cases fftshifted)
    case False
    have "(replicate (length grid_shape) (0::real))[length grid_shape - Suc 0 := 0]
            = butlast (replicate (length grid_shape) 0) @ [0]"
      using ne update_last_Suc [of "replicate (length grid_shape) (0::real)" 0] by simp
    with True False ne v assms(2) show ?thesis
      by (simp add: fft_center_def)
  next
    case shifted: True
    have "(map (\<lambda>L. floor_divide L 2) (butlast (map float32_of_int grid_shape) @ [v]))
             [length grid_shape - 1 := 0]
          = map (\<lambda>L. floor_divide (float32_of_int L) 2) (butlast grid_shape) @ [0]"
      using ne
        update_last [of "map (\<lambda>L. floor_divide L 2) (butlast (map float32_of_int grid_shape) @ [v])" 0]
      by (simp add: map_butlast [symmetric] comp_def)
    with True shifted ne v assms(2) show ?thesis
      by (simp add: fft_center_def map_butlast comp_def)
  qed
qed

lemma float32_exact_shape:
  assumes "list_all (\<lambda>L. \<bar>L\<bar> \<le> 2 ^ 24) grid_shape"
  shows "\<not> list_ex (\<lambda>L. L < - (2 ^ 63) \<or> 2 ^ 63 \<le> L) grid_shape"
    and "map (\<lambda>L. floor_divide (float32_of_int L) 2) grid_shape
           = map (\<lambda>L. real_of_int (L div 2)) grid_shape"
proof -
  have small: "\<bar>L\<bar> \<le> 2 ^ 24" if "L \<in> set grid_shape" for L
    using assms that by (simp add: list_all_iff)
  show "\<not> list_ex (\<lambda>L. L < - (2 ^ 63) \<or> 2 ^ 63 \<le> L) grid_shape"
    using small by (fastforce simp: list_ex_iff)
  show "map (\<lambda>L. floor_divide (float32_of_int L) 2) grid_shape
           = map (\<lambda>L. real_of_int (L div 2)) grid_shape"
    using small by (simp add: float32_of_int_exact floor_divide_two cong: map_cong)
qed

text \<open>
  C6, amended. For a grid shape whose axis lengths are at most \<open>2 ^ 24\<close> (the ints that
  the float32 cast of the shape keeps), \<open>fft_center\<close> returns the all-zero index vector
  when \<open>fftshifted\<close> is false, and \<open>floor(L/2)\<close> for every axis length \<open>L\<close> when it is true;
  when \<open>rfft\<close> is true the entry of the last axis is 0 whatever \<open>fftshifted\<close> is (the other
  axes of the rfft-adjusted shape are those of the grid shape). With \<open>rfft\<close> the shape must
  have an axis. For the grid shape \<open>(8, 8)\<close>, shifted, the result is \<open>(4, 4)\<close> without \<open>rfft\<close>
  and \<open>(4, 0)\<close> with it.
\<close>

theorem fft_center_spec:
  assumes "rfft \<Longrightarrow> grid_shape \<noteq> []"
    and "list_all (\<lambda>L. \<bar>L\<bar> \<le> 2 ^ 24) grid_shape"
  shows "fft_center grid_shape fftshifted rfft
           = Inr (let c = (if fftshifted then map (\<lambda>L. real_of_int (L div 2)) grid_shape
                           else replicate (length grid_shape) 0)
                  in if rfft then butlast c @ [0] else c)
         \<and> fft_center [8, 8] True False = Inr [4, 4]
         \<and> fft_center [8, 8] True True = Inr [4, 0]"
proof (intro conjI)
  show "fft_center grid_shape fftshifted rfft
           = Inr (let c = (if fftshifted then map (\<lambda>L. real_of_int (L div 2)) grid_shape
                           else replicate (length grid_shape) 0)
                  in if rfft then butlast c @ [0] else c)"
    using fft_center_value [OF assms(1) float32_exact_shape(1) [OF assms(2)]]
    by (simp add: float32_exact_shape(2) [OF assms(2)])
  have small: "list_all (\<lambda>L. \<bar>L\<bar> \<le> 2 ^ 24) [8, 8 :: int]" by simp
  show "fft_center [8, 8] True False = Inr [4, 4]"
    using fft_center_value [OF _ float32_exact_shape(1) [OF small], of False True]
    by (simp add: float32_exact_shape(2) [OF small, simplified])
  show "fft_center [8, 8] True True = Inr [4, 0]"
    using fft_center_value [OF _ float32_exact_shape(1) [OF small], of True True]
    by (simp add: float32_exact_shape(2) [OF small, simplified])
qed

theorem fft_center_witness:
  "fft_center [6, 10, 7] True True = Inr [3, 5, 0]
   \<and> fft_center [6, 10, 7] False True = Inr [0, 0, 0]
   \<and> fft_center [] True False = Inr []
   \<and> fft_center [16777216, 5] True False = Inr [8388608, 2]"
  using fft_center_spec [of True "[6, 10, 7]" True]
    fft_center_spec [of True "[6, 10, 7]" False]
    fft_center_spec [of False "[]" True]
    fft_center_spec [of False "[16777216, 5]" True]
  by simp

text \<open>
  The claim as first stated, for every grid shape, fails beyond \<open>2 ^ 24\<close>: the axis length
  16777219 is cast to 16777220, and the centre of the shifted grid \<open>(16777219,)\<close> comes
  out as 8388610, not \<open>floor(16777219 / 2) = 8388609\<close>.
\<close>

theorem fft_center_float32_counterexample:
  "fft_center [16777219] True False = Inr [8388610]
   \<and> fft_center [16777219] True False \<noteq> Inr [real_of_int (16777219 div 2)]"
proof -
  have "\<not> list_ex (\<lambda>L. L < - (2 ^ 63) \<or> 2 ^ 63 \<le> L) [16777219 :: int]" by simp
  from fft_center_value [OF _ this, of False True]
  have "fft_center [16777219] True False = Inr [8388610]"
    by (simp add: float32_of_int_16777219 floor_divide_def)
  then show ?thesis by simp
qed

section \<open>The cuboid mask\<close>

lemma dft_center_shifted:
  "dft_center (d, h, w) False True = Inr (real (d div 2), real (h div 2), real (w div 2))"
  by (simp add: dft_center_def)

lemma all_last3_nth:
  assumes "length a = d" "length b = d" "length c = d" "z < d"
    and "length (a ! z) = h" "length (b ! z) = h" "length (c ! z) = h" "y < h"
    and "length (a ! z ! y) = w" "length (b ! z ! y) = w" "length (c ! z ! y) = w" "x < w"
  shows "all_last3 a b c ! z ! y ! x
           = (a ! z ! y ! x \<and> b ! z ! y ! x \<and> c ! z ! y ! x)"
  using assms by (simp add: all_last3_def)

lemma cuboid_voxel_given_center:
  assumes "as_shape3 image_shape = (d, h, w)" and "z < d" and "y < h" and "x < w"
  shows "\<exists>m. cuboid smooth (d0, d1, d2) image_shape (Some (c0, c1, c2)) 0 = Inr m \<and>
           m ! z ! y ! x
             = (if - (d1 / 2) < real z - c0 \<and> real z - c0 < d1 / 2 \<and>
                   - (d2 / 2) < real y - c1 \<and> real y - c1 < d2 / 2 \<and>
                   - (d2 / 2) < real x - c2 \<and> real x - c2 < d2 / 2
                then 1 else 0)"
proof -
  let ?co = "coordinate_grid (d, h, w) (c0, c1, c2)"
  let ?dm = "map (map (map (\<lambda>c::vec3. fst c > - (d1 / 2) \<and> fst c < d1 / 2))) ?co"
  let ?hm = "map (map (map (\<lambda>c::vec3. fst (snd c) > - (d2 / 2) \<and> fst (snd c) < d2 / 2))) ?co"
  let ?wm = "map (map (map (\<lambda>c::vec3. snd (snd c) > - (d2 / 2) \<and> snd (snd c) < d2 / 2))) ?co"
  have co: "length ?co = d" "length (?co ! z) = h" "length (?co ! z ! y) = w"
    "?co ! z ! y ! x = (real z - c0, real y - c1, real x - c2)"
    using assms(2-4) by (simp_all add: coordinate_grid_def)
  have len: "length (all_last3 ?dm ?hm ?wm) = d" "length (all_last3 ?dm ?hm ?wm ! z) = h"
    "length (all_last3 ?dm ?hm ?wm ! z ! y) = w"
    using assms(2-4) co by (simp_all add: all_last3_def)
  have "all_last3 ?dm ?hm ?wm ! z ! y ! x
          = (?dm ! z ! y ! x \<and> ?hm ! z ! y ! x \<and> ?wm ! z ! y ! x)"
    using assms(2-4) co by (intro all_last3_nth [where d = d and h = h and w = w]) simp_all
  also have "\<dots> = (- (d1 / 2) < real z - c0 \<and> real z - c0 < d1 / 2 \<and>
                   - (d2 / 2) < real y - c1 \<and> real y - c1 < d2 / 2 \<and>
                   - (d2 / 2) < real x - c2 \<and> real x - c2 < d2 / 2)"
    using assms(2-4) co by simp
  finally have val: "all_last3 ?dm ?hm ?wm ! z ! y ! x
          = (- (d1 / 2) < real z - c0 \<and> real z - c0 < d1 / 2 \<and>
                   - (d2 / 2) < real y - c1 \<and> real y - c1 < d2 / 2 \<and>
                   - (d2 / 2) < real x - c2 \<and> real x - c2 < d2 / 2)" .
  have "cuboid smooth (d0, d1, d2) image_shape (Some (c0, c1, c2)) 0
          = Inr (map (map (map (\<lambda>b. if b then 1 else 0))) (all_last3 ?dm ?hm ?wm))"
    using assms(1) by (simp add: cuboid_def add_soft_edge_3d_def Let_def)
  moreover have "map (map (map (\<lambda>b. if b then 1 else (0::real)))) (all_last3 ?dm ?hm ?wm) ! z ! y ! x
          = (if all_last3 ?dm ?hm ?wm ! z ! y ! x then 1 else 0)"
    using assms(2-4) len by simp
  ultimately show ?thesis using val by simp
qed

text \<open>
  C2 (what \<open>cuboid\<close> computes). With smoothing radius 0 and the default centre
  \<open>(d div 2, h div 2, w div 2)\<close>, the mask at voxel \<open>(z, y, x)\<close> is 1 exactly when the depth
  offset lies in the open interval of half-width \<open>dimensions[1] / 2\<close> and the height and
  width offsets in the one of half-width \<open>dimensions[2] / 2\<close>, and 0 elsewhere:
  \<open>dimensions[0]\<close> halved is \<open>dd\<close>, which no test reads.
\<close>

theorem cuboid_voxel_value:
  assumes "as_shape3 image_shape = (d, h, w)" and "z < d" and "y < h" and "x < w"
  shows "\<exists>m. cuboid smooth (d0, d1, d2) image_shape None 0 = Inr m \<and>
           m ! z ! y ! x
             = (if - (d1 / 2) < real z - real (d div 2) \<and> real z - real (d div 2) < d1 / 2 \<and>
                   - (d2 / 2) < real y - real (h div 2) \<and> real y - real (h div 2) < d2 / 2 \<and>
                   - (d2 / 2) < real x - real (w div 2) \<and> real x - real (w div 2) < d2 / 2
                then 1 else 0)"
proof -
  have "cuboid smooth (d0, d1, d2) image_shape None 0
          = cuboid smooth (d0, d1, d2) image_shape
              (Some (real (d div 2), real (h div 2), real (w div 2))) 0"
    using assms(1) by (simp add: cuboid_def dft_center_shifted)
  then show ?thesis
    using cuboid_voxel_given_center [OF assms, of smooth d0 d1 d2] by simp
qed

text \<open>
  The mask of \<open>cuboid(dimensions=(1, 4, 4), image_shape=4)\<close> at voxel \<open>(3, 2, 2)\<close>, whose
  depth offset from the centre \<open>(2, 2, 2)\<close> is 1, outside \<open>(-1/2, 1/2)\<close>: the value is 1.
\<close>

theorem cuboid_depth_bound_failing_input:
  "\<forall>smooth. \<exists>m. cuboid smooth (1, 4, 4) (Side 4) None 0 = Inr m \<and> m ! 3 ! 2 ! 2 = 1"
proof
  fix smooth
  show "\<exists>m. cuboid smooth (1, 4, 4) (Side 4) None 0 = Inr m \<and> m ! 3 ! 2 ! 2 = 1"
    using cuboid_voxel_value [of "Side 4" 4 4 4 3 2 2 smooth 1 4 4] by simp
qed

section \<open>Slice extraction\<close>

lemma map2_same: "map2 f (map g xs) (map h xs) = map (\<lambda>x. f (g x) (h x)) xs"
  by (induction xs) simp_all

lemma map2_same3:
  "map2 (map2 (map2 f)) (map (map (map g)) xs) (map (map (map h)) xs)
     = map (map (map (\<lambda>x. f (g x) (h x)))) xs"
  by (simp add: map2_same)

lemma extract_slices_samples:
  "extract_slices grid_sample to_grid dft slice_coordinates
     = map (map (map (\<lambda>c. Complex (grid_sample (map (map (map Re)) dft) (to_grid (shape3 dft) c))
                                   (grid_sample (map (map (map Im)) dft) (to_grid (shape3 dft) c)))))
         slice_coordinates"
proof -
  have inside: "((0::real) < a \<or> a < 1) = True" for a by auto
  show ?thesis
    unfolding extract_slices_def Let_def
    by (simp add: map2_same3 map2_same inside comp_def)
qed

text \<open>
  C1 (what \<open>extract_slices\<close> computes). The test \<open>c > 0 or c < 1\<close> holds of every
  number, so no sample is multiplied by 0: every output pixel is the value the sampler
  gives at the converted coordinate, also for a coordinate outside the volume on every
  axis.
\<close>

theorem extract_slices_zeroes_nothing:
  "extract_slices grid_sample to_grid dft slice_coordinates
     = map (map (map (\<lambda>c. Complex (grid_sample (map (map (map Re)) dft) (to_grid (shape3 dft) c))
                                   (grid_sample (map (map (map Im)) dft) (to_grid (shape3 dft) c)))))
         slice_coordinates"
  by (rule extract_slices_samples)

text \<open>
  A volume of side 2 sampled at the array coordinate \<open>(5, 5, 5)\<close>, outside \<open>[0, 1]\<close> on
  every axis: the border-clamped sampler gives the corner voxel \<open>8 + 9i\<close>, and that is
  the value returned.
\<close>

lemma grid_sample_border_corner:
  "grid_sample_border [[[a, b], [c, d]], [[e, f], [g, h]]]
     (array_to_grid_sample (2, 2, 2) (5, 5, 5)) = h"
proof -
  let ?v = "[[[a, b], [c, d]], [[e, f], [g, h]]]"
  have grid: "array_to_grid_sample (2, 2, 2) (5, 5, 5) = (9, 9, 9)"
    by (simp add: array_to_grid_sample_def remap_axis_def)
  have clipped: "clip_coordinate 2 (unnormalize 2 9) = 1"
    by (simp add: clip_coordinate_def unnormalize_def)
  have sh: "shape3 ?v = (2, 2, 2)"
    by (simp add: shape3_def)
  have v: "voxel_or_zero ?v 1 1 1 = h"
    by (simp add: voxel_or_zero_def sh)
  show ?thesis
    unfolding grid grid_sample_border_def sh
    by (simp add: clipped v Let_def)
qed

theorem extract_slices_outside_failing_input:
  "extract_slices grid_sample_border array_to_grid_sample
     [[[1, 2], [3, 4]], [[5, 6], [7, Complex 8 9]]] [[[(5, 5, 5)]]] = [[[Complex 8 9]]]"
proof -
  have sh: "shape3 [[[1, 2], [3, 4]], [[5, 6], [7, Complex 8 9]]] = (2, 2, 2)"
    by (simp add: shape3_def)
  show ?thesis
    unfolding extract_slices_zeroes_nothing sh
    by (simp add: grid_sample_border_corner)
qed

section \<open>Conjugate-half correction in \<open>project\<close>\<close>

lemma map2_nth3:
  assumes "b < length xs" "b < length ys" "i < length (xs ! b)" "i < length (ys ! b)"
    "j < length (xs ! b ! i)" "j < length (ys ! b ! i)"
  shows "map2 (map2 (map2 f)) xs ys ! b ! i ! j = f (xs ! b ! i ! j) (ys ! b ! i ! j)"
  using assms by simp

lemma in_redundant_half_mask_nth:
  assumes "b < length grid" "i < length (grid ! b)" "j < length (grid ! b ! i)"
  shows "in_redundant_half_mask grid ! b ! i ! j
           = (snd (snd (grid ! b ! i ! j)) < 0, snd (snd (grid ! b ! i ! j)) < 0,
              snd (snd (grid ! b ! i ! j)) < 0)"
    and "length (in_redundant_half_mask grid) = length grid"
    and "length (in_redundant_half_mask grid ! b) = length (grid ! b)"
    and "length (in_redundant_half_mask grid ! b ! i) = length (grid ! b ! i)"
  using assms by (simp_all add: in_redundant_half_mask_def)

lemma negate_masked_nth:
  assumes "b < length grid" "i < length (grid ! b)" "j < length (grid ! b ! i)"
  shows "negate_masked (in_redundant_half_mask grid) grid ! b ! i ! j
           = (case grid ! b ! i ! j of (z, y, x) \<Rightarrow> if x < 0 then (- z, - y, - x) else (z, y, x))"
    and "length (negate_masked (in_redundant_half_mask grid) grid) = length grid"
    and "length (negate_masked (in_redundant_half_mask grid) grid ! b) = length (grid ! b)"
    and "length (negate_masked (in_redundant_half_mask grid) grid ! b ! i) = length (grid ! b ! i)"
proof -
  note m = in_redundant_half_mask_nth [OF assms]
  show "negate_masked (in_redundant_half_mask grid) grid ! b ! i ! j
           = (case grid ! b ! i ! j of (z, y, x) \<Rightarrow> if x < 0 then (- z, - y, - x) else (z, y, x))"
    unfolding negate_masked_def
    using assms m by (simp add: map2_nth3 split: prod.splits)
  show "length (negate_masked (in_redundant_half_mask grid) grid) = length grid"
    using m(2) by (simp add: negate_masked_def)
  show "length (negate_masked (in_redundant_half_mask grid) grid ! b) = length (grid ! b)"
    using assms m by (simp add: negate_masked_def)
  show "length (negate_masked (in_redundant_half_mask grid) grid ! b ! i) = length (grid ! b ! i)"
    using assms m by (simp add: negate_masked_def)
qed

text \<open>
  C5. Let \<open>grid\<close> be the rotated frequency grid of \<open>project\<close> for the (padded) volume, and
  let the viewer of lines 133 to 146 return on the converted grid (napari is installed,
  a display is there, the window is closed). Then \<open>project\<close> returns the inverse
  transform, unpadded, of samples of the shape of the grid, and for the point
  \<open>(z, y, x)\<close> at position \<open>(b, i, j)\<close> of the grid: it is flagged exactly when its last
  component \<open>x\<close> is negative; the point handed to the coordinate conversion is
  \<open>(-z, -y, -x)\<close> when flagged and \<open>(z, y, x)\<close> otherwise; and the sample is the complex
  conjugate of the value extracted there when flagged, and the value itself otherwise.
\<close>

theorem project_conjugate_half:
  fixes env :: "project_env"
  defines "pad_length \<equiv> \<lambda>volume. snd (snd (shape3 volume)) div 2"
  defines "padded \<equiv> \<lambda>volume pad. if pad then pad_volume (pad_length volume) volume else volume"
  defines "transform \<equiv> \<lambda>volume1. fftshift_dft env (rfftn env (fftshift_volume env volume1))"
  defines "sample \<equiv> \<lambda>dft volume_shape c.
             Complex (sampler env (map (map (map Re)) dft)
                        (to_sample_grid env (shape3 dft) (fftfreq_to_dft_coordinates env volume_shape c)))
                     (sampler env (map (map (map Im)) dft)
                        (to_sample_grid env (shape3 dft) (fftfreq_to_dft_coordinates env volume_shape c)))"
  defines "finish \<equiv> \<lambda>volume pad projections.
             (let projections3 = map ifftshift (map (irfftn env) (map ifftshift projections))
              in if pad
                 then map (\<lambda>image. map (slice_both (pad_length volume))
                                      (slice_both (pad_length volume) image)) projections3
                 else projections3)"
  assumes grid: "grid = rotated_grid env (shape3 (padded volume pad)) rotation_matrices zyx"
    and viewer: "napari_viewer env
                   (map (map (map (fftfreq_to_dft_coordinates env (shape3 (padded volume pad)))))
                      (negate_masked (in_redundant_half_mask grid) grid)) = Some (Inr ())"
  shows "\<exists>samples.
           project env volume rotation_matrices zyx pad = Some (Inr (finish volume pad samples)) \<and>
           length samples = length grid \<and>
           (\<forall>b < length grid.
              length (samples ! b) = length (grid ! b) \<and>
              (\<forall>i < length (grid ! b).
                 length (samples ! b ! i) = length (grid ! b ! i) \<and>
                 (\<forall>j < length (grid ! b ! i).
                    fst (in_redundant_half_mask grid ! b ! i ! j)
                      = (snd (snd (grid ! b ! i ! j)) < 0) \<and>
                    negate_masked (in_redundant_half_mask grid) grid ! b ! i ! j
                      = (case grid ! b ! i ! j of (z, y, x) \<Rightarrow>
                           if x < 0 then (- z, - y, - x) else (z, y, x)) \<and>
                    samples ! b ! i ! j
                      = (case grid ! b ! i ! j of (z, y, x) \<Rightarrow>
                           if x < 0
                           then cnj (sample (transform (padded volume pad))
                                       (shape3 (padded volume pad)) (- z, - y, - x))
                           else sample (transform (padded volume pad))
                                  (shape3 (padded volume pad)) (z, y, x)))))"
proof -
  let ?shape = "shape3 (padded volume pad)"
  let ?dft = "transform (padded volume pad)"
  let ?mask = "in_redundant_half_mask grid"
  let ?g1 = "negate_masked ?mask grid"
  let ?g2 = "map (map (map (fftfreq_to_dft_coordinates env ?shape))) ?g1"
  let ?p = "extract_slices (sampler env) (to_sample_grid env) ?dft ?g2"
  let ?samples = "conjugate_masked ?mask ?p"
  have pv: "(if pad then pad_volume (snd (snd (shape3 volume)) div 2) volume else volume)
              = padded volume pad"
    by (simp add: padded_def pad_length_def)
  have g: "rotated_grid env (shape3 (padded volume pad)) rotation_matrices zyx = grid"
    using grid by simp
  have run: "project env volume rotation_matrices zyx pad = Some (Inr (finish volume pad ?samples))"
    unfolding project_def Let_def pv g viewer
    by (simp add: finish_def transform_def pad_length_def Let_def)
  have len: "length ?samples = length grid"
    by (simp add: conjugate_masked_def extract_slices_samples in_redundant_half_mask_def
        negate_masked_def)
  have point: "length (?samples ! b) = length (grid ! b) \<and>
              (\<forall>i < length (grid ! b).
                 length (?samples ! b ! i) = length (grid ! b ! i) \<and>
                 (\<forall>j < length (grid ! b ! i).
                    fst (?mask ! b ! i ! j) = (snd (snd (grid ! b ! i ! j)) < 0) \<and>
                    ?g1 ! b ! i ! j
                      = (case grid ! b ! i ! j of (z, y, x) \<Rightarrow>
                           if x < 0 then (- z, - y, - x) else (z, y, x)) \<and>
                    ?samples ! b ! i ! j
                      = (case grid ! b ! i ! j of (z, y, x) \<Rightarrow>
                           if x < 0 then cnj (sample ?dft ?shape (- z, - y, - x))
                           else sample ?dft ?shape (z, y, x))))"
    if b: "b < length grid" for b
  proof (intro conjI allI impI)
    show "length (?samples ! b) = length (grid ! b)"
      using b by (simp add: conjugate_masked_def extract_slices_samples in_redundant_half_mask_def
          negate_masked_def)
  next
    fix i assume i: "i < length (grid ! b)"
    show "length (?samples ! b ! i) = length (grid ! b ! i)"
      using b i by (simp add: conjugate_masked_def extract_slices_samples in_redundant_half_mask_def
          negate_masked_def)
  next
    fix i j assume i: "i < length (grid ! b)" and j: "j < length (grid ! b ! i)"
    note m = in_redundant_half_mask_nth [OF b i j]
    note n = negate_masked_nth [OF b i j]
    show "fst (?mask ! b ! i ! j) = (snd (snd (grid ! b ! i ! j)) < 0)"
      using m(1) by simp
    show "?g1 ! b ! i ! j
            = (case grid ! b ! i ! j of (z, y, x) \<Rightarrow> if x < 0 then (- z, - y, - x) else (z, y, x))"
      using n(1) .
    have p: "?p ! b ! i ! j = sample ?dft ?shape (?g1 ! b ! i ! j)"
      and lp: "length ?p = length grid" "length (?p ! b) = length (grid ! b)"
        "length (?p ! b ! i) = length (grid ! b ! i)"
      using b i j n(2-4) by (simp_all add: extract_slices_samples sample_def)
    have "?samples ! b ! i ! j = (if fst (?mask ! b ! i ! j) then cnj (?p ! b ! i ! j)
                                  else ?p ! b ! i ! j)"
      unfolding conjugate_masked_def
      using b i j m(2-4) lp by (subst map2_nth3) simp_all
    then show "?samples ! b ! i ! j
                 = (case grid ! b ! i ! j of (z, y, x) \<Rightarrow>
                      if x < 0 then cnj (sample ?dft ?shape (- z, - y, - x))
                      else sample ?dft ?shape (z, y, x))"
      using m(1) p n(1) by (simp split: prod.splits)
  qed
  show ?thesis
    using run len point by (intro exI [of _ ?samples]) simp
qed

text \<open>
  A volume of one voxel, unpadded, with the rotation by a half turn about the first
  (\<open>z\<close>) axis, a central-slice grid of the two points \<open>(0, 1/4, 1/4)\<close> and \<open>(0, 1/4, 0)\<close>, and
  a viewer whose window is closed: the first point is rotated to \<open>(0, -1/4, -1/4)\<close>,
  sampled at \<open>(0, 1/4, 1/4)\<close> and conjugated; the second is rotated to \<open>(0, -1/4, 0)\<close> and
  sampled there.
\<close>

theorem project_conjugate_half_witness:
  "\<forall>fv rf fd f2c sm tg ir.
     \<exists>samples.
       project \<lparr>fftshift_volume = fv, rfftn = rf, fftshift_dft = fd,
                fftfreq_central_slice = (\<lambda>s. [[(0, 1 / 4, 1 / 4), (0, 1 / 4, 0)]]),
                fftfreq_to_dft_coordinates = f2c, sampler = sm, to_sample_grid = tg, irfftn = ir,
                napari_viewer = (\<lambda>g. Some (Inr ()))\<rparr>
         [[[1]]] [((1, 0, 0), (0, - 1, 0), (0, 0, - 1))] True False
         = Some (Inr (map ifftshift (map ir (map ifftshift samples)))) \<and>
       samples ! 0 ! 0 ! 0
         = cnj (Complex (sm (map (map (map Re)) (fd (rf (fv [[[1]]]))))
                           (tg (shape3 (fd (rf (fv [[[1]]])))) (f2c (1, 1, 1) (0, 1 / 4, 1 / 4))))
                        (sm (map (map (map Im)) (fd (rf (fv [[[1]]]))))
                           (tg (shape3 (fd (rf (fv [[[1]]])))) (f2c (1, 1, 1) (0, 1 / 4, 1 / 4))))) \<and>
       samples ! 0 ! 0 ! 1
         = Complex (sm (map (map (map Re)) (fd (rf (fv [[[1]]]))))
                      (tg (shape3 (fd (rf (fv [[[1]]])))) (f2c (1, 1, 1) (0, - (1 / 4), 0))))
                   (sm (map (map (map Im)) (fd (rf (fv [[[1]]]))))
                      (tg (shape3 (fd (rf (fv [[[1]]])))) (f2c (1, 1, 1) (0, - (1 / 4), 0))))"
proof (intro allI)
  fix fv rf fd f2c sm tg ir
  let ?env = "\<lparr>fftshift_volume = fv, rfftn = rf, fftshift_dft = fd,
                fftfreq_central_slice = (\<lambda>s. [[(0, 1 / 4, 1 / 4), (0, 1 / 4, 0)]]),
                fftfreq_to_dft_coordinates = f2c, sampler = sm, to_sample_grid = tg, irfftn = ir,
                napari_viewer = (\<lambda>g. Some (Inr ()))\<rparr>"
  let ?grid = "[[[(0, - (1 / 4), - (1 / 4)), (0, - (1 / 4), 0 :: real)]]]"
  have sh: "shape3 [[[1 :: real]]] = (1, 1, 1)"
    by (simp add: shape3_def)
  have grid: "?grid = rotated_grid ?env (shape3 (if False then pad_volume
                 (snd (snd (shape3 [[[1 :: real]]])) div 2) [[[1]]] else [[[1]]]))
               [((1, 0, 0), (0, - 1, 0), (0, 0, - 1))] True"
    by (simp add: rotated_grid_def matvec_def dot3_def)
  note T = project_conjugate_half [where grid = ?grid and env = ?env and volume = "[[[1]]]"
      and pad = False and rotation_matrices = "[((1, 0, 0), (0, - 1, 0), (0, 0, - 1))]"
      and zyx = True, OF grid]
  from T show "\<exists>samples.
       project ?env [[[1]]] [((1, 0, 0), (0, - 1, 0), (0, 0, - 1))] True False
         = Some (Inr (map ifftshift (map ir (map ifftshift samples)))) \<and>
       samples ! 0 ! 0 ! 0
         = cnj (Complex (sm (map (map (map Re)) (fd (rf (fv [[[1]]]))))
                           (tg (shape3 (fd (rf (fv [[[1]]])))) (f2c (1, 1, 1) (0, 1 / 4, 1 / 4))))
                        (sm (map (map (map Im)) (fd (rf (fv [[[1]]]))))
                           (tg (shape3 (fd (rf (fv [[[1]]])))) (f2c (1, 1, 1) (0, 1 / 4, 1 / 4))))) \<and>
       samples ! 0 ! 0 ! 1
         = Complex (sm (map (map (map Re)) (fd (rf (fv [[[1]]]))))
                      (tg (shape3 (fd (rf (fv [[[1]]])))) (f2c (1, 1, 1) (0, - (1 / 4), 0))))
                   (sm (map (map (map Im)) (fd (rf (fv [[[1]]]))))
                      (tg (shape3 (fd (rf (fv [[[1]]])))) (f2c (1, 1, 1) (0, - (1 / 4), 0))))"
    by (auto simp: All_less_Suc sh Let_def)
qed

text \<open>When the viewer raises, so does \<open>project\<close>; when it never returns, neither does \<open>project\<close>.\<close>

lemma project_viewer_outcome:
  assumes "grid = rotated_grid env
             (shape3 (if pad then pad_volume (snd (snd (shape3 volume)) div 2) volume else volume))
             rotation_matrices zyx"
    and "coordinates
           = map (map (map (fftfreq_to_dft_coordinates env
               (shape3 (if pad then pad_volume (snd (snd (shape3 volume)) div 2) volume
                        else volume)))))
               (negate_masked (in_redundant_half_mask grid) grid)"
  shows "napari_viewer env coordinates = Some (Inl e) \<Longrightarrow>
           project env volume rotation_matrices zyx pad = Some (Inl e)"
    and "napari_viewer env coordinates = None \<Longrightarrow>
           project env volume rotation_matrices zyx pad = None"
  using assms by (simp_all add: project_def Let_def)

section \<open>Desymmetrisation\<close>

lemma is_matrix_row: "is_matrix h w m \<Longrightarrow> i < h \<Longrightarrow> length (m ! i) = w"
  by (simp add: is_matrix_def list_all_length)

lemma is_matrix_length: "is_matrix h w m \<Longrightarrow> length m = h"
  by (simp add: is_matrix_def)

lemma is_matrixI: "length m = h \<Longrightarrow> (\<And>i. i < h \<Longrightarrow> length (m ! i) = w) \<Longrightarrow> is_matrix h w m"
  by (simp add: is_matrix_def list_all_length)

lemma is_volume_plane: "is_volume d h w v \<Longrightarrow> k < d \<Longrightarrow> is_matrix h w (v ! k)"
  by (simp add: is_volume_def list_all_length)

lemma is_volume_length: "is_volume d h w v \<Longrightarrow> length v = d"
  by (simp add: is_volume_def)

lemma is_volumeI:
  "length v = d \<Longrightarrow> (\<And>k. k < d \<Longrightarrow> is_matrix h w (v ! k)) \<Longrightarrow> is_volume d h w v"
  by (simp add: is_volume_def list_all_length)

lemma shape2_matrix: "is_matrix h w m \<Longrightarrow> 0 < h \<Longrightarrow> shape2 m = (h, w)"
  by (cases m) (auto simp: shape2_def is_matrix_def)

lemma shape3_volume: "is_volume d h w v \<Longrightarrow> 0 < d \<Longrightarrow> 0 < h \<Longrightarrow> shape3 v = (d, h, w)"
  by (cases v; cases "hd v") (auto simp: shape3_def is_volume_def is_matrix_def)

lemma average_ends_nth:
  "length row = Suc n \<Longrightarrow> j \<le> n \<Longrightarrow>
   average_ends row ! j = (if j = 0 then average (row ! 0) (row ! n) else row ! j)"
  by (cases "row = []") (auto simp: average_ends_def last_conv_nth nth_list_update)

lemma average_ends_length [simp]: "length (average_ends row) = length row"
  by (simp add: average_ends_def)

lemma average_end_rows_nth:
  "is_matrix (Suc n) w m \<Longrightarrow> i \<le> n \<Longrightarrow> j < w \<Longrightarrow>
   average_end_rows m ! i ! j = (if i = 0 then average (m ! 0 ! j) (m ! n ! j) else m ! i ! j)"
  by (cases "m = []")
    (auto simp: average_end_rows_def last_conv_nth nth_list_update is_matrix_def list_all_length)

lemma average_end_rows_matrix:
  "is_matrix (Suc n) w m \<Longrightarrow> is_matrix (Suc n) w (average_end_rows m)"
  by (cases "m = []")
    (auto simp: average_end_rows_def last_conv_nth nth_list_update is_matrix_def list_all_length)

lemma map_average_ends_matrix:
  "is_matrix h w m \<Longrightarrow> is_matrix h w (map average_ends m)"
  by (auto simp: is_matrix_def list_all_length)

lemma desym_matrix_nth:
  assumes "is_matrix (Suc n) (Suc n) m" "i \<le> n" "j \<le> n"
  shows "average_end_rows (map average_ends m) ! i ! j = desym_rows n m i j"
proof -
  have m1: "is_matrix (Suc n) (Suc n) (map average_ends m)"
    using assms(1) by (rule map_average_ends_matrix)
  have c: "map average_ends m ! i' ! j = desym_cols n m i' j" if "i' \<le> n" for i'
    using that assms(1,3) by (simp add: is_matrix_def list_all_length average_ends_nth desym_cols_def)
  show ?thesis
    using average_end_rows_nth [OF m1 assms(2), of j] assms(2,3)
    by (simp add: c desym_rows_def)
qed

lemma butlast2_nth:
  "is_matrix (Suc n) (Suc n') m \<Longrightarrow> i < n \<Longrightarrow> j < n' \<Longrightarrow> map butlast (butlast m) ! i ! j = m ! i ! j"
  by (simp add: is_matrix_def list_all_length nth_butlast)

lemma butlast2_matrix:
  "is_matrix (Suc n) (Suc n') m \<Longrightarrow> is_matrix n n' (map butlast (butlast m))"
  by (simp add: is_matrix_def list_all_length nth_butlast)

lemma tmap_tmap: "tmap f (tmap g t) = tmap (\<lambda>x. f (g x)) t"
  by (cases t) simp_all

lemma items_tmap: "items (tmap f t) = map f (items t)"
  by (cases t) simp_all

lemma last_shape2_matrices:
  "items t \<noteq> [] \<Longrightarrow> list_all (is_matrix h w) (items t) \<Longrightarrow> 0 < h \<Longrightarrow> last_shape2 t = (h, w)"
  by (cases "items t") (simp_all add: last_shape2_def shape2_matrix)

lemma last_shape3_volumes:
  "items t \<noteq> [] \<Longrightarrow> list_all (is_volume d h w) (items t) \<Longrightarrow> 0 < d \<Longrightarrow> 0 < h \<Longrightarrow>
   last_shape3 t = (d, h, w)"
  by (cases "items t") (simp_all add: last_shape3_def shape3_volume)

lemma symmetrised_dft_to_dft_2d_run:
  assumes "a < length heap" "items (heap ! a) \<noteq> []"
    and "list_all (is_matrix (Suc n) (Suc n)) (items (heap ! a))"
  defines "buf \<equiv> tmap (\<lambda>m. average_end_rows (map average_ends m)) (heap ! a)"
  shows "symmetrised_dft_to_dft_2d heap a inplace
           = (if inplace = Some False then heap @ [buf] else heap[a := buf],
              Inr (tmap (\<lambda>m. map butlast (butlast m)) buf))"
proof -
  let ?t = "heap ! a"
  have s0: "last_shape2 ?t = (Suc n, Suc n)"
    using assms(2,3) by (simp add: last_shape2_matrices)
  show ?thesis
  proof (cases "inplace = Some False")
    case True
    then show ?thesis
      using assms(1) s0
      by (simp add: symmetrised_dft_to_dft_2d_def clone_def nth_append tmap_tmap buf_def)
  next
    case False
    then show ?thesis
      using assms(1) s0
      by (simp add: symmetrised_dft_to_dft_2d_def tmap_tmap buf_def)
  qed
qed

lemma average_end_planes_nth:
  "is_volume (Suc n) h w v \<Longrightarrow> k \<le> n \<Longrightarrow> i < h \<Longrightarrow> j < w \<Longrightarrow>
   average_end_planes v ! k ! i ! j
     = (if k = 0 then average (v ! 0 ! i ! j) (v ! n ! i ! j) else v ! k ! i ! j)"
  by (cases "v = []")
    (auto simp: average_end_planes_def last_conv_nth nth_list_update is_volume_def is_matrix_def
      list_all_length)

lemma average_end_planes_volume:
  "is_volume (Suc n) h w v \<Longrightarrow> is_volume (Suc n) h w (average_end_planes v)"
  by (cases "v = []")
    (auto simp: average_end_planes_def last_conv_nth nth_list_update is_volume_def is_matrix_def
      list_all_length)

lemma desym_planes_volume:
  assumes "is_volume d (Suc n) (Suc n) v"
  shows "is_volume d (Suc n) (Suc n) (map (\<lambda>m. average_end_rows (map average_ends m)) v)"
  using assms
  by (auto simp: is_volume_def list_all_length intro!: average_end_rows_matrix map_average_ends_matrix)

lemma desym_volume_nth:
  assumes "is_volume (Suc n) (Suc n) (Suc n) v" "k \<le> n" "i \<le> n" "j \<le> n"
  shows "average_end_planes (map (\<lambda>m. average_end_rows (map average_ends m)) v) ! k ! i ! j
           = desym_planes n v k i j"
proof -
  let ?v2 = "map (\<lambda>m. average_end_rows (map average_ends m)) v"
  have v2: "is_volume (Suc n) (Suc n) (Suc n) ?v2"
    using assms(1) by (rule desym_planes_volume)
  have len: "length v = Suc n" using assms(1) by (rule is_volume_length)
  have r: "?v2 ! k' ! i ! j = desym_rows n (v ! k') i j" if "k' \<le> n" for k'
    using that len desym_matrix_nth [OF is_volume_plane [OF assms(1), of k'] assms(3,4)] by simp
  show ?thesis
    using average_end_planes_nth [OF v2 assms(2), of i j] assms(2-4)
    by (simp add: r desym_planes_def)
qed

lemma butlast3_nth:
  "is_volume (Suc n) (Suc n) (Suc n) v \<Longrightarrow> k < n \<Longrightarrow> i < n \<Longrightarrow> j < n \<Longrightarrow>
   map (map butlast) (map butlast (butlast v)) ! k ! i ! j = v ! k ! i ! j"
  by (simp add: is_volume_def is_matrix_def list_all_length nth_butlast)

lemma butlast3_volume:
  "is_volume (Suc n) (Suc n) (Suc n) v \<Longrightarrow>
   is_volume n n n (map (map butlast) (map butlast (butlast v)))"
  by (simp add: is_volume_def is_matrix_def list_all_length nth_butlast)

lemma symmetrised_dft_to_dft_3d_run:
  assumes "a < length heap" "items (heap ! a) \<noteq> []"
    and "list_all (is_volume (Suc n) (Suc n) (Suc n)) (items (heap ! a))"
  defines "buf \<equiv> tmap (\<lambda>v. average_end_planes (map (\<lambda>m. average_end_rows (map average_ends m)) v))
                    (heap ! a)"
  shows "symmetrised_dft_to_dft_3d heap a inplace
           = (if inplace = Some False then heap @ [buf] else heap[a := buf],
              Inr (tmap (\<lambda>v. map (map butlast) (map butlast (butlast v))) buf))"
proof -
  let ?t = "heap ! a"
  have s0: "last_shape3 ?t = (Suc n, Suc n, Suc n)"
    using assms(2,3) by (simp add: last_shape3_volumes)
  show ?thesis
  proof (cases "inplace = Some False")
    case True
    then show ?thesis
      using assms(1) s0
      by (simp add: symmetrised_dft_to_dft_3d_def clone_def nth_append tmap_tmap buf_def comp_def)
  next
    case False
    then show ?thesis
      using assms(1) s0
      by (simp add: symmetrised_dft_to_dft_3d_def tmap_tmap buf_def comp_def)
  qed
qed

text \<open>
  C7. For a symmetrised 2D DFT of shape \<open>(..., n+1, n+1)\<close>, \<open>symmetrised_dft_to_dft_2d\<close>
  returns a tensor of shape \<open>(..., n, n)\<close> whose entry \<open>(i, j)\<close> is \<open>desym_rows\<close>: the
  first column is the 0.5/0.5 average of the first and the last column, then the first
  row the average of the first and the last row of that result (so the corner holds the
  averaged column values), and the last index of each axis is dropped.
  \<open>symmetrised_dft_to_dft_3d\<close> does the same on \<open>(..., n+1, n+1, n+1)\<close> with the axes in the
  order last, middle, first (\<open>desym_planes\<close>) and returns \<open>(..., n, n, n)\<close>.
\<close>

theorem symmetrised_dft_to_dft_averages:
  assumes "a < length heap" "items (heap ! a) \<noteq> []"
    and "list_all (is_matrix (Suc n) (Suc n)) (items (heap ! a))"
    and "a' < length heap'" "items (heap' ! a') \<noteq> []"
    and "list_all (is_volume (Suc n') (Suc n') (Suc n')) (items (heap' ! a'))"
  shows "(\<exists>res. snd (symmetrised_dft_to_dft_2d heap a inplace) = Inr res \<and>
            length (items res) = length (items (heap ! a)) \<and>
            (\<forall>b < length (items res).
               is_matrix n n (items res ! b) \<and>
               (\<forall>i < n. \<forall>j < n.
                  items res ! b ! i ! j = desym_rows n (items (heap ! a) ! b) i j)))
       \<and> (\<exists>res. snd (symmetrised_dft_to_dft_3d heap' a' inplace') = Inr res \<and>
            length (items res) = length (items (heap' ! a')) \<and>
            (\<forall>b < length (items res).
               is_volume n' n' n' (items res ! b) \<and>
               (\<forall>k < n'. \<forall>i < n'. \<forall>j < n'.
                  items res ! b ! k ! i ! j = desym_planes n' (items (heap' ! a') ! b) k i j)))"
proof (intro conjI)
  let ?f = "\<lambda>m. average_end_rows (map average_ends m)"
  let ?res = "tmap (\<lambda>m. map butlast (butlast m)) (tmap ?f (heap ! a))"
  have res: "snd (symmetrised_dft_to_dft_2d heap a inplace) = Inr ?res"
    by (simp add: symmetrised_dft_to_dft_2d_run [OF assms(1-3)])
  have item: "is_matrix n n (items ?res ! b) \<and>
              (\<forall>i < n. \<forall>j < n. items ?res ! b ! i ! j = desym_rows n (items (heap ! a) ! b) i j)"
    if b: "b < length (items (heap ! a))" for b
  proof -
    let ?m = "items (heap ! a) ! b"
    have m: "is_matrix (Suc n) (Suc n) ?m"
      using assms(3) b by (simp add: list_all_length)
    have fm: "is_matrix (Suc n) (Suc n) (?f ?m)"
      using m by (intro average_end_rows_matrix map_average_ends_matrix)
    have eq: "items ?res ! b = map butlast (butlast (?f ?m))"
      using b by (simp add: items_tmap)
    show ?thesis
      unfolding eq
      using butlast2_matrix [OF fm] butlast2_nth [OF fm] desym_matrix_nth [OF m]
      by simp
  qed
  show "\<exists>res. snd (symmetrised_dft_to_dft_2d heap a inplace) = Inr res \<and>
            length (items res) = length (items (heap ! a)) \<and>
            (\<forall>b < length (items res).
               is_matrix n n (items res ! b) \<and>
               (\<forall>i < n. \<forall>j < n.
                  items res ! b ! i ! j = desym_rows n (items (heap ! a) ! b) i j))"
    using res item by (intro exI [of _ ?res]) (simp add: items_tmap)
next
  let ?f = "\<lambda>v. average_end_planes (map (\<lambda>m. average_end_rows (map average_ends m)) v)"
  let ?res = "tmap (\<lambda>v. map (map butlast) (map butlast (butlast v))) (tmap ?f (heap' ! a'))"
  have res: "snd (symmetrised_dft_to_dft_3d heap' a' inplace') = Inr ?res"
    by (simp add: symmetrised_dft_to_dft_3d_run [OF assms(4-6)])
  have item: "is_volume n' n' n' (items ?res ! b) \<and>
              (\<forall>k < n'. \<forall>i < n'. \<forall>j < n'.
                 items ?res ! b ! k ! i ! j = desym_planes n' (items (heap' ! a') ! b) k i j)"
    if b: "b < length (items (heap' ! a'))" for b
  proof -
    let ?v = "items (heap' ! a') ! b"
    have v: "is_volume (Suc n') (Suc n') (Suc n') ?v"
      using assms(6) b by (simp add: list_all_length)
    have fv: "is_volume (Suc n') (Suc n') (Suc n') (?f ?v)"
      using v by (intro average_end_planes_volume desym_planes_volume)
    have eq: "items ?res ! b = map (map butlast) (map butlast (butlast (?f ?v)))"
      using b by (simp add: items_tmap)
    show ?thesis
      unfolding eq
      using butlast3_volume [OF fv] butlast3_nth [OF fv] desym_volume_nth [OF v]
      by simp
  qed
  show "\<exists>res. snd (symmetrised_dft_to_dft_3d heap' a' inplace') = Inr res \<and>
            length (items res) = length (items (heap' ! a')) \<and>
            (\<forall>b < length (items res).
               is_volume n' n' n' (items res ! b) \<and>
               (\<forall>k < n'. \<forall>i < n'. \<forall>j < n'.
                  items res ! b ! k ! i ! j = desym_planes n' (items (heap' ! a') ! b) k i j))"
    using res item by (intro exI [of _ ?res]) (simp add: items_tmap)
qed

theorem symmetrised_dft_to_dft_averages_witness:
  "(\<exists>res. snd (symmetrised_dft_to_dft_2d [Plain [[1, 2, 3], [4, 5, 6], [7, 8, 11]]] 0 None) = Inr res \<and>
      items res ! 0 ! 0 ! 0 = 11 / 2 \<and> items res ! 0 ! 0 ! 1 = 5 \<and> items res ! 0 ! 1 ! 0 = 5 \<and>
      items res ! 0 ! 1 ! 1 = 5)
   \<and> (\<exists>res. snd (symmetrised_dft_to_dft_3d [Batch [[[[1, 2], [3, 4]], [[5, 6], [7, 8]]]]] 0 (Some False))
              = Inr res \<and>
      items res ! 0 ! 0 ! 0 ! 0 = 9 / 2)"
proof -
  let ?M = "[[1, 2, 3], [4, 5, 6], [7, 8, 11 :: complex]]"
  let ?V = "[[[1, 2], [3, 4]], [[5, 6], [7, 8 :: complex]]]"
  have m: "list_all (is_matrix (Suc 2) (Suc 2)) (items (([Plain ?M]) ! 0))"
    by (simp add: is_matrix_def)
  have v: "list_all (is_volume (Suc 1) (Suc 1) (Suc 1)) (items ([Batch [?V]] ! 0))"
    by (simp add: is_volume_def is_matrix_def)
  note T = symmetrised_dft_to_dft_averages [of 0 "[Plain ?M]" 2 0 "[Batch [?V]]" 1 None "Some False",
      OF _ _ m _ _ v]
  from T obtain r2 r3 where
    r2: "snd (symmetrised_dft_to_dft_2d [Plain ?M] 0 None) = Inr r2"
    and l2: "length (items r2) = Suc 0"
    and a2: "\<forall>b < length (items r2). is_matrix 2 2 (items r2 ! b) \<and>
               (\<forall>i < 2. \<forall>j < 2. items r2 ! b ! i ! j = desym_rows 2 ([?M] ! b) i j)"
    and r3: "snd (symmetrised_dft_to_dft_3d [Batch [?V]] 0 (Some False)) = Inr r3"
    and l3: "length (items r3) = Suc 0"
    and a3: "\<forall>b < length (items r3). is_volume (Suc 0) (Suc 0) (Suc 0) (items r3 ! b) \<and>
               items r3 ! b ! 0 ! 0 ! 0 = desym_planes (Suc 0) ([?V] ! b) 0 0 0"
    by auto
  have v2: "items r2 ! 0 ! i ! j = desym_rows 2 ?M i j" if "i < 2" "j < 2" for i j
    using a2 l2 that by simp
  have v3: "items r3 ! 0 ! 0 ! 0 ! 0 = desym_planes 1 ?V 0 0 0"
    using a3 l3 by simp
  have "items r2 ! 0 ! 0 ! 0 = 11 / 2" "items r2 ! 0 ! 0 ! 1 = 5" "items r2 ! 0 ! 1 ! 0 = 5"
    "items r2 ! 0 ! 1 ! 1 = 5"
    by (simp_all add: v2 desym_rows_def desym_cols_def average_def)
  moreover have "items r3 ! 0 ! 0 ! 0 ! 0 = 9 / 2"
    by (simp add: v3 desym_planes_def desym_rows_def desym_cols_def average_def)
  ultimately show ?thesis using r2 r3 by simp
qed

lemma symmetrised_dft_to_rfft_2d_run:
  assumes "a < length heap" "items (heap ! a) \<noteq> []"
    and "list_all (is_matrix (Suc n) (Suc n)) (items (heap ! a))" and "even n"
  defines "dc \<equiv> n div 2"
  defines "buf \<equiv> tmap (fold_halves dc) (heap ! a)"
  shows "symmetrised_dft_to_rfft_2d heap a inplace
           = (if inplace = Some False then heap @ [Batch (items buf)] else heap[a := buf],
              Inr (Batch (map (\<lambda>m. ifftshift (map (drop dc) (butlast m))) (items buf))))"
proof -
  let ?t = "heap ! a"
  have s0: "last_shape2 ?t = (Suc n, Suc n)"
    using assms(2,3) by (simp add: last_shape2_matrices)
  have dc: "Suc n div 2 = dc" using assms(4) by (simp add: dc_def)
  have bc: "broadcastable (min dc (Suc n)) (Suc n - (dc + 1))"
    using assms(4) by (auto simp: broadcastable_def dc_def elim!: evenE)
  have it: "items (tmap f (Batch (items t))) = items (tmap f t)" for f :: "complex list list \<Rightarrow> complex list list" and t
    by (cases t) simp_all
  show ?thesis
  proof (cases "inplace = Some False")
    case True
    then show ?thesis
      using assms(1) s0 bc
      by (simp add: symmetrised_dft_to_rfft_2d_def dc nth_append tmap_tmap buf_def
          fold_halves_def [abs_def] items_tmap)
  next
    case False
    then show ?thesis
      using assms(1) s0 bc
      by (simp add: symmetrised_dft_to_rfft_2d_def dc tmap_tmap buf_def fold_halves_def [abs_def] items_tmap)
  qed
qed

lemma expand_length [simp]: "length (expand n xs) = n"
  by (simp add: expand_def)

lemma expand_same: "length xs = n \<Longrightarrow> expand n xs = xs"
  by (simp add: expand_def)

lemma halve_right_length [simp]: "length (halve_right r row) = length row"
  by (simp add: halve_right_def)

lemma add_right_length [simp]: "length (add_right r src row) = length row"
  by (simp add: add_right_def)

lemma half_flipped_conj_left_length [simp]:
  "length (half_flipped_conj_left dc m) = length m"
  by (simp add: half_flipped_conj_left_def)

lemma is_matrix_rotate: "is_matrix h w m \<Longrightarrow> is_matrix h w (rotate k m)"
  by (simp add: is_matrix_def list_all_iff)

lemma average_nyquist_rows_matrix:
  assumes "is_matrix (Suc n) w m"
  shows "is_matrix (Suc n) w (average_nyquist_rows r m)"
proof (rule is_matrixI)
  have len: "length m = Suc n" using assms by (rule is_matrix_length)
  then show "length (average_nyquist_rows r m) = Suc n"
    by (simp add: average_nyquist_rows_def)
  fix i assume i: "i < Suc n"
  have ne: "m \<noteq> []" using len by auto
  have l0: "length (m ! 0) = w" "length (last m) = w"
    using len is_matrix_row [OF assms, of 0] is_matrix_row [OF assms, of n]
    by (simp_all add: last_conv_nth [OF ne])
  show "length (average_nyquist_rows r m ! i) = w"
    using i len l0 is_matrix_row [OF assms i]
    by (auto simp: average_nyquist_rows_def nth_list_update)
qed

lemma fold_halves_matrix:
  assumes "is_matrix (Suc n) w m"
  shows "is_matrix (Suc n) w (fold_halves dc m)"
proof -
  have len: "length m = Suc n" using assms by (rule is_matrix_length)
  have "is_matrix (Suc n) w
          (map2 (add_right (Suc dc)) (half_flipped_conj_left dc (map (halve_right (Suc dc)) m))
             (map (halve_right (Suc dc)) m))"
    using len is_matrix_row [OF assms] by (intro is_matrixI) simp_all
  then show ?thesis
    unfolding fold_halves_def by (rule average_nyquist_rows_matrix)
qed

lemma returned_rfft_matrix:
  assumes "is_matrix (Suc n) (Suc n) m" "even n"
  shows "is_matrix n (n div 2 + 1) (ifftshift (map (drop (n div 2)) (butlast m)))"
proof -
  have "is_matrix n (n div 2 + 1) (map (drop (n div 2)) (butlast m))"
  proof (rule is_matrixI)
    show "length (map (drop (n div 2)) (butlast m)) = n"
      using is_matrix_length [OF assms(1)] by simp
    fix i assume "i < n"
    then show "length (map (drop (n div 2)) (butlast m) ! i) = n div 2 + 1"
      using is_matrix_length [OF assms(1)] is_matrix_row [OF assms(1), of i] assms(2)
      by (auto simp: nth_butlast elim!: evenE)
  qed
  then show ?thesis
    unfolding ifftshift_def by (rule is_matrix_rotate)
qed

text \<open>
  C10. Given an unbatched matrix of shape \<open>(n+1, n+1)\<close>, \<open>n\<close> even,
  \<open>symmetrised_dft_to_rfft_2d\<close> returns a batch of one matrix: the axis it inserts is
  kept, and the result has shape \<open>(1, n, n/2 + 1)\<close>.
\<close>

theorem symmetrised_dft_to_rfft_2d_unbatched_shape:
  assumes "a < length heap" and "heap ! a = Plain m"
    and "is_matrix (Suc n) (Suc n) m" and "even n"
  shows "\<exists>res. snd (symmetrised_dft_to_rfft_2d heap a inplace) = Inr (Batch [res]) \<and>
           is_matrix n (n div 2 + 1) res"
proof -
  have sh: "items (heap ! a) \<noteq> []" "list_all (is_matrix (Suc n) (Suc n)) (items (heap ! a))"
    using assms(2,3) by simp_all
  have "snd (symmetrised_dft_to_rfft_2d heap a inplace)
          = Inr (Batch [ifftshift (map (drop (n div 2)) (butlast (fold_halves (n div 2) m)))])"
    using assms(2) by (simp add: symmetrised_dft_to_rfft_2d_run [OF assms(1) sh assms(4)])
  moreover have "is_matrix n (n div 2 + 1)
                   (ifftshift (map (drop (n div 2)) (butlast (fold_halves (n div 2) m))))"
    using fold_halves_matrix [OF assms(3)] assms(4) by (rule returned_rfft_matrix)
  ultimately show ?thesis by simp
qed

theorem symmetrised_dft_to_rfft_2d_unbatched_shape_witness:
  "\<exists>res. snd (symmetrised_dft_to_rfft_2d [Plain [[1, 2, 3], [4, 5, 6], [7, 8, 9]]] 0 None)
            = Inr (Batch [res]) \<and> length res = 2 \<and> length (res ! 0) = 2 \<and> length (res ! 1) = 2"
proof -
  have m: "is_matrix (Suc 2) (Suc 2) [[1, 2, 3], [4, 5, 6], [7, 8, 9 :: complex]]"
    by (simp add: is_matrix_def)
  from symmetrised_dft_to_rfft_2d_unbatched_shape
         [of 0 "[Plain [[1, 2, 3], [4, 5, 6], [7, 8, 9]]]" _ 2 None, OF _ _ m]
  obtain res where
    "snd (symmetrised_dft_to_rfft_2d [Plain [[1, 2, 3], [4, 5, 6], [7, 8, 9]]] 0 None)
       = Inr (Batch [res])" and "is_matrix 2 (2 div 2 + 1) res"
    by auto
  then show ?thesis
    by (auto simp: is_matrix_def list_all_length)
qed

lemma frame_dft_2d:
  "a < length heap \<Longrightarrow> fst (symmetrised_dft_to_dft_2d heap a (Some False)) ! a = heap ! a"
  by (auto simp: symmetrised_dft_to_dft_2d_def clone_def Let_def nth_append nth_list_update
      split: prod.splits)

lemma frame_dft_3d:
  "a < length heap \<Longrightarrow> fst (symmetrised_dft_to_dft_3d heap a (Some False)) ! a = heap ! a"
  by (auto simp: symmetrised_dft_to_dft_3d_def clone_def Let_def nth_append nth_list_update
      split: prod.splits)

lemma frame_rfft_2d:
  "a < length heap \<Longrightarrow> fst (symmetrised_dft_to_rfft_2d heap a (Some False)) ! a = heap ! a"
  by (auto simp: symmetrised_dft_to_rfft_2d_def Let_def nth_append nth_list_update
      split: prod.splits)

text \<open>
  C8. With \<open>inplace=False\<close> each of \<open>symmetrised_dft_to_dft_2d\<close>,
  \<open>symmetrised_dft_to_dft_3d\<close> and \<open>symmetrised_dft_to_rfft_2d\<close> leaves the caller's buffer
  as it was, whatever it holds. With \<open>inplace\<close> true or left to its default, no buffer
  is added and the caller's buffer holds the averaged spectrum after the call (for a
  symmetrised input of side \<open>n+1\<close>; \<open>n\<close> even for \<open>symmetrised_dft_to_rfft_2d\<close>).
\<close>

theorem inplace_flag_effect:
  assumes "a < length heap" and "a' < length heap'"
  shows "fst (symmetrised_dft_to_dft_2d heap a (Some False)) ! a = heap ! a
       \<and> fst (symmetrised_dft_to_dft_3d heap' a' (Some False)) ! a' = heap' ! a'
       \<and> fst (symmetrised_dft_to_rfft_2d heap a (Some False)) ! a = heap ! a
       \<and> (inplace \<noteq> Some False \<longrightarrow> items (heap ! a) \<noteq> [] \<longrightarrow>
            list_all (is_matrix (Suc n) (Suc n)) (items (heap ! a)) \<longrightarrow>
              fst (symmetrised_dft_to_dft_2d heap a inplace)
                = heap[a := tmap (\<lambda>m. average_end_rows (map average_ends m)) (heap ! a)]
              \<and> (even n \<longrightarrow>
                   fst (symmetrised_dft_to_rfft_2d heap a inplace)
                     = heap[a := tmap (fold_halves (n div 2)) (heap ! a)]))
       \<and> (inplace \<noteq> Some False \<longrightarrow> items (heap' ! a') \<noteq> [] \<longrightarrow>
            list_all (is_volume (Suc n') (Suc n') (Suc n')) (items (heap' ! a')) \<longrightarrow>
              fst (symmetrised_dft_to_dft_3d heap' a' inplace)
                = heap'[a' := tmap (\<lambda>v. average_end_planes
                                           (map (\<lambda>m. average_end_rows (map average_ends m)) v))
                                (heap' ! a')])"
  using assms
  by (simp add: frame_dft_2d frame_dft_3d frame_rfft_2d symmetrised_dft_to_dft_2d_run
      symmetrised_dft_to_dft_3d_run symmetrised_dft_to_rfft_2d_run)

theorem inplace_flag_effect_witness:
  "fst (symmetrised_dft_to_dft_2d [Plain [[1, 2, 3], [4, 5, 6], [7, 8, 11]]] 0 (Some False)) ! 0
     = Plain [[1, 2, 3], [4, 5, 6], [7, 8, 11]]
   \<and> fst (symmetrised_dft_to_rfft_2d [Plain [[1, 2, 3], [4, 5, 6], [7, 8, 11]]] 0 (Some False)) ! 0
     = Plain [[1, 2, 3], [4, 5, 6], [7, 8, 11]]
   \<and> fst (symmetrised_dft_to_dft_3d [Plain [[[1, 2], [3, 4]], [[5, 6], [7, 8]]]] 0 (Some False)) ! 0
     = Plain [[[1, 2], [3, 4]], [[5, 6], [7, 8]]]
   \<and> fst (symmetrised_dft_to_dft_2d [Plain [[1, 2, 3], [4, 5, 6], [7, 8, 11]]] 0 None)
     = [Plain [[11 / 2, 5, 7], [5, 5, 6], [9, 8, 11]]]
   \<and> fst (symmetrised_dft_to_rfft_2d [Plain [[1, 2, 3], [4, 5, 6], [7, 8, 11]]] 0 None)
     = [Plain [[1, 2, 11 / 2], [4, 5, 5], [7, 8, 6]]]
   \<and> fst (symmetrised_dft_to_dft_3d [Plain [[[1, 2], [3, 4]], [[5, 6], [7, 8]]]] 0 None)
     = [Plain [[[9 / 2, 5], [11 / 2, 6]], [[13 / 2, 7], [15 / 2, 8]]]]"
proof -
  let ?M = "[[1, 2, 3], [4, 5, 6], [7, 8, 11 :: complex]]"
  let ?V = "[[[1, 2], [3, 4]], [[5, 6], [7, 8 :: complex]]]"
  note T = inplace_flag_effect [of 0 "[Plain ?M]" 0 "[Plain ?V]" None 2 1]
  have m: "list_all (is_matrix (Suc 2) (Suc 2)) (items ([Plain ?M] ! 0))"
    by (simp add: is_matrix_def)
  have v: "list_all (is_volume (Suc 1) (Suc 1) (Suc 1)) (items ([Plain ?V] ! 0))"
    by (simp add: is_volume_def is_matrix_def)
  have e2: "tmap (\<lambda>m. average_end_rows (map average_ends m)) (Plain ?M)
              = Plain [[11 / 2, 5, 7], [5, 5, 6], [9, 8, 11]]"
    by (simp add: average_end_rows_def average_ends_def average_def)
  have e3: "tmap (fold_halves (2 div 2)) (Plain ?M) = Plain [[1, 2, 11 / 2], [4, 5, 5], [7, 8, 6]]"
    by (simp add: fold_halves_def average_nyquist_rows_def add_right_def halve_right_def
        half_flipped_conj_left_def expand_def average_def)
  have e4: "tmap (\<lambda>v. average_end_planes (map (\<lambda>m. average_end_rows (map average_ends m)) v))
              (Plain ?V) = Plain [[[9 / 2, 5], [11 / 2, 6]], [[13 / 2, 7], [15 / 2, 8]]]"
    by (simp add: average_end_planes_def average_end_rows_def average_ends_def average_def)
  show ?thesis
    using T m v e2 e3 e4 by simp
qed

section \<open>Symmetrisation\<close>

subsection \<open>The 2D round trip\<close>

lemma map2_replicate_left:
  "length ys = k \<Longrightarrow> map2 f (replicate k z) ys = map (f z) ys"
  by (induction ys arbitrary: k) auto

lemma butlast_replicate_Suc: "butlast (replicate (Suc k) z) = replicate k z"
  by (induction k) auto

lemma drop_Suc_0_tl: "drop (Suc 0) xs = tl xs"
  by (cases xs) simp_all

lemma symmetrise_item:
  assumes "is_matrix n (Suc dc) s" and "n = 2 * dc" and "0 < dc"
  shows "fill_redundant dc
           (replicate_nyquist dc (Suc dc)
              (place_rfft dc (Suc dc) (replicate (n + 1) (replicate (n + 1) 0)) s) s)
         = mirrored (right_half s)"
proof -
  let ?z = "replicate (n + 1) (0::complex)"
  have len: "length s = n" using assms(1) by (rule is_matrix_length)
  have rows: "\<And>x. x \<in> set s \<Longrightarrow> length x = Suc dc"
    using assms(1) by (simp add: is_matrix_def list_all_iff)
  have tz: "take dc ?z = replicate dc 0"
    using assms(2) by (simp only: take_replicate) (simp add: min_def)
  have pr: "put_right dc (Suc dc) ?z x = replicate dc 0 @ x" if "x \<in> set s" for x
    using rows [OF that] by (simp only: put_right_def expand_same tz)
  have bz: "butlast (replicate (n + 1) ?z) = replicate n ?z"
    by (simp only: butlast_replicate_Suc Suc_eq_plus1 [symmetric])
  have lz: "last (replicate (n + 1) ?z) = ?z"
    by simp
  have "map2 (put_right dc (Suc dc)) (replicate n ?z) s = map (put_right dc (Suc dc) ?z) s"
    using len by (rule map2_replicate_left)
  also have "\<dots> = map (\<lambda>x. replicate dc 0 @ x) s"
    using pr by (simp cong: map_cong)
  finally have A: "place_rfft dc (Suc dc) (replicate (n + 1) ?z) s
             = map (\<lambda>x. replicate dc 0 @ x) s @ [?z]"
    by (simp only: place_rfft_def bz lz)
  have s0: "s ! 0 \<in> set s" using len assms(2,3) by simp
  have B: "replicate_nyquist dc (Suc dc) (map (\<lambda>x. replicate dc 0 @ x) s @ [?z]) s
             = map (\<lambda>x. replicate dc 0 @ x) (right_half s)"
  proof -
    have "replicate_nyquist dc (Suc dc) (map (\<lambda>x. replicate dc 0 @ x) s @ [?z]) s
            = map (\<lambda>x. replicate dc 0 @ x) s @ [replicate dc 0 @ s ! 0]"
      by (simp only: replicate_nyquist_def butlast_snoc last_snoc pr [OF s0])
    then show ?thesis by (simp add: right_half_def)
  qed
  have rh: "\<And>x. x \<in> set (right_half s) \<Longrightarrow> length x = Suc dc"
    using len rows s0 by (auto simp: right_half_def)
  have C: "fill_redundant dc (map (\<lambda>x. replicate dc 0 @ x) R) = mirrored R"
    if R: "\<And>x. x \<in> set R \<Longrightarrow> length x = Suc dc" for R
  proof (rule nth_equalityI)
    show "length (fill_redundant dc (map (\<lambda>x. replicate dc 0 @ x) R)) = length (mirrored R)"
      by (simp add: fill_redundant_def mirrored_def)
    fix i assume "i < length (fill_redundant dc (map (\<lambda>x. replicate dc 0 @ x) R))"
    then have i: "i < length R" by (simp add: fill_redundant_def)
    then have j: "length R - Suc i < length R" by simp
    have li: "length (R ! (length R - Suc i)) = Suc dc"
      using R j by simp
    have src: "map rev (rev (map (\<lambda>row. map cnj (drop (dc + 1) row))
                 (map (\<lambda>x. replicate dc 0 @ x) R))) ! i
               = rev (map cnj (tl (R ! (length R - Suc i))))"
      using i j by (simp add: rev_nth drop_Suc_0_tl)
    have "fill_redundant dc (map (\<lambda>x. replicate dc 0 @ x) R) ! i
            = put_left dc (replicate dc 0 @ R ! i) (rev (map cnj (tl (R ! (length R - Suc i)))))"
      unfolding fill_redundant_def using i src by simp
    also have "\<dots> = rev (map cnj (tl (R ! (length R - Suc i)))) @ R ! i"
      using li by (simp add: put_left_def expand_same)
    also have "\<dots> = mirrored R ! i"
      using i j by (simp add: mirrored_def rev_nth)
    finally show "fill_redundant dc (map (\<lambda>x. replicate dc 0 @ x) R) ! i = mirrored R ! i" .
  qed
  show ?thesis
    unfolding A B by (rule C) (rule rh)
qed

lemma mirrored_length [simp]: "length (mirrored R) = length R"
  by (simp add: mirrored_def)

lemma mirrored_nth:
  "i < length R \<Longrightarrow> mirrored R ! i = rev (map cnj (tl (R ! (length R - Suc i)))) @ R ! i"
  by (simp add: mirrored_def rev_nth)

lemma map2_average_same: "map2 average xs xs = xs"
  by (induction xs) (simp_all add: average_def)

lemma half_sum: "map2 (\<lambda>a b. a + b) (map (\<lambda>z. z * 0.5) xs) (map (\<lambda>z. 0.5 * z) xs) = (xs :: complex list)"
  by (induction xs) simp_all

lemma halve_right_split:
  assumes "length L = dc" and "Rr \<noteq> []"
  shows "halve_right (Suc dc) (L @ Rr) = L @ hd Rr # map (\<lambda>z. z * 0.5) (tl Rr)"
  using assms by (cases Rr) (simp_all add: halve_right_def)

lemma add_right_split:
  assumes "length L = dc" and "length ys = length xs"
  shows "add_right (Suc dc) ys (L @ x # xs) = L @ x # map2 (\<lambda>a b. a + b) xs ys"
  using assms by (simp add: add_right_def expand_same)

lemma fold_halves_mirrored:
  assumes len: "length R = Suc (2 * dc)"
    and rows: "\<And>i. i < length R \<Longrightarrow> length (R ! i) = Suc dc"
    and ends: "R ! (2 * dc) = R ! 0"
  shows "fold_halves dc (mirrored R) = mirrored R"
proof -
  let ?M = "mirrored R"
  let ?H = "map (halve_right (Suc dc)) ?M"
  let ?F = "half_flipped_conj_left dc ?H"
  have ne: "R ! i \<noteq> []" if "i < length R" for i
    using rows [OF that] by auto
  have Lr: "length (rev (map cnj (tl (R ! i)))) = dc" if "i < length R" for i
    using rows [OF that] by simp
  have H: "?H ! i = rev (map cnj (tl (R ! (length R - Suc i)))) @ hd (R ! i)
                      # map (\<lambda>z. z * 0.5) (tl (R ! i))"
    if i: "i < length R" for i
  proof -
    have j: "length R - Suc i < length R" using i by simp
    show ?thesis
      using i by (simp add: mirrored_nth halve_right_split [OF Lr [OF j] ne [OF i]])
  qed
  have F: "?F ! i = map (\<lambda>z. 0.5 * z) (tl (R ! i))" if i: "i < length R" for i
  proof -
    have j: "length R - Suc i < length R" using i by simp
    have jj: "length R - Suc (length R - Suc i) = i" using i by simp
    have "?F ! i = map (\<lambda>z. 0.5 * z) (rev (map cnj (take dc (?H ! (length R - Suc i)))))"
      using i j by (simp add: half_flipped_conj_left_def rev_nth)
    also have "take dc (?H ! (length R - Suc i)) = rev (map cnj (tl (R ! i)))"
      using Lr [OF i] by (simp only: H [OF j] jj) simp
    also have "rev (map cnj (rev (map cnj (tl (R ! i))))) = tl (R ! i)"
      by (simp add: rev_map comp_def)
    finally show ?thesis .
  qed
  have A: "map2 (add_right (Suc dc)) ?F ?H = ?M"
  proof (rule nth_equalityI)
    show "length (map2 (add_right (Suc dc)) ?F ?H) = length ?M"
      by simp
    fix i assume "i < length (map2 (add_right (Suc dc)) ?F ?H)"
    then have i: "i < length R" by simp
    have j: "length R - Suc i < length R" using i by simp
    have "map2 (add_right (Suc dc)) ?F ?H ! i = add_right (Suc dc) (?F ! i) (?H ! i)"
      using i by simp
    also have "\<dots> = rev (map cnj (tl (R ! (length R - Suc i)))) @ hd (R ! i)
                        # map2 (\<lambda>a b. a + b) (map (\<lambda>z. z * 0.5) (tl (R ! i)))
                            (map (\<lambda>z. 0.5 * z) (tl (R ! i)))"
      unfolding H [OF i] F [OF i]
      by (rule add_right_split) (simp_all add: Lr [OF j, simplified])
    also have "\<dots> = rev (map cnj (tl (R ! (length R - Suc i)))) @ R ! i"
      using ne [OF i] by (simp only: half_sum) simp
    also have "\<dots> = ?M ! i"
      using i by (simp add: mirrored_nth)
    finally show "map2 (add_right (Suc dc)) ?F ?H ! i = ?M ! i" .
  qed
  have M0: "?M ! 0 = rev (map cnj (tl (R ! 0))) @ R ! 0"
    using len ends by (simp add: mirrored_nth)
  have Mn: "last ?M = rev (map cnj (tl (R ! 0))) @ R ! 0"
  proof -
    have "length ?M = Suc (2 * dc)" using len by simp
    then have "?M \<noteq> []" by (cases ?M) simp_all
    then have "last ?M = ?M ! (length ?M - 1)" by (rule last_conv_nth)
    then have "last ?M = ?M ! (2 * dc)"
      using len by simp
    also have "\<dots> = rev (map cnj (tl (R ! 0))) @ R ! (2 * dc)"
      using len by (simp add: mirrored_nth)
    finally show ?thesis using ends by simp
  qed
  have l0: "length (R ! 0) = Suc dc" using rows [of 0] len by simp
  have "take (Suc dc) (?M ! 0) @ map2 average (drop (Suc dc) (?M ! 0)) (drop (Suc dc) (last ?M))
          = take (Suc dc) (?M ! 0) @ drop (Suc dc) (?M ! 0)"
    unfolding Mn M0 by (simp only: map2_average_same)
  then have "average_nyquist_rows (Suc dc) ?M = ?M[0 := ?M ! 0]"
    unfolding average_nyquist_rows_def by simp
  then have "average_nyquist_rows (Suc dc) ?M = ?M" by simp
  then show ?thesis
    unfolding fold_halves_def A .
qed

lemma tmap_cong_items: "(\<And>x. x \<in> set (items t) \<Longrightarrow> f x = g x) \<Longrightarrow> tmap f t = tmap g t"
  by (cases t) simp_all

lemma ifftshift_fftshift: "ifftshift (fftshift xs) = xs"
proof -
  have "length xs div 2 + (length xs - length xs div 2) = length xs" by simp
  then show ?thesis
    by (simp add: ifftshift_def fftshift_def rotate_rotate)
qed

lemma fftshift_matrix: "is_matrix h w m \<Longrightarrow> is_matrix h w (fftshift m)"
  unfolding fftshift_def by (rule is_matrix_rotate)

lemma right_half_rows:
  assumes "is_matrix n (Suc dc) s" and "n = 2 * dc" and "0 < dc"
  shows "length (right_half s) = Suc (2 * dc)"
    and "\<And>i. i < length (right_half s) \<Longrightarrow> length (right_half s ! i) = Suc dc"
    and "right_half s ! (2 * dc) = right_half s ! 0"
    and "butlast (right_half s) = s"
proof -
  have len: "length s = 2 * dc" using assms(1,2) by (simp add: is_matrix_def)
  show "length (right_half s) = Suc (2 * dc)" using len by (simp add: right_half_def)
  show "right_half s ! (2 * dc) = right_half s ! 0"
    using len assms(3) by (simp add: right_half_def nth_append)
  show "butlast (right_half s) = s" by (simp add: right_half_def)
  fix i assume "i < length (right_half s)"
  then show "length (right_half s ! i) = Suc dc"
    using len assms(3) is_matrix_row [OF assms(1), of i] is_matrix_row [OF assms(1), of 0] assms(2)
    by (auto simp: right_half_def nth_append)
qed

lemma mirrored_matrix:
  assumes "length R = Suc (2 * dc)" and "\<And>i. i < length R \<Longrightarrow> length (R ! i) = Suc dc"
  shows "is_matrix (Suc (2 * dc)) (Suc (2 * dc)) (mirrored R)"
proof (rule is_matrixI)
  show "length (mirrored R) = Suc (2 * dc)" using assms(1) by simp
  fix i assume i: "i < Suc (2 * dc)"
  then have "length R - Suc i < length R" using assms(1) by simp
  from assms(2) [OF this] assms(2) [of i] i assms(1)
  show "length (mirrored R ! i) = Suc (2 * dc)"
    by (simp add: mirrored_nth)
qed

lemma returned_right_half:
  assumes "length R = Suc (2 * dc)" and "\<And>i. i < length R \<Longrightarrow> length (R ! i) = Suc dc"
  shows "map (drop dc) (butlast (mirrored R)) = butlast R"
proof (rule nth_equalityI)
  show "length (map (drop dc) (butlast (mirrored R))) = length (butlast R)" by simp
  fix i assume "i < length (map (drop dc) (butlast (mirrored R)))"
  then have i: "i < 2 * dc" using assms(1) by simp
  then have j: "length R - Suc i < length R" and i': "i < length R" using assms(1) by simp_all
  from assms(2) [OF j] i i' assms(1)
  show "map (drop dc) (butlast (mirrored R)) ! i = butlast R ! i"
    by (simp add: nth_butlast mirrored_nth)
qed

lemma rfft_to_symmetrised_dft_2d_run:
  assumes "items t \<noteq> []" and "list_all (is_matrix n (Suc dc)) (items t)"
    and "n = 2 * dc" and "0 < dc"
  shows "rfft_to_symmetrised_dft_2d t
           = Inr (tmap (\<lambda>x. mirrored (right_half (fftshift x))) t)"
proof -
  have sh: "last_shape2 t = (n, Suc dc)"
    using assms by (simp add: last_shape2_matrices)
  have dc: "n div 2 = dc" "Suc n - dc = Suc dc" "n - dc = dc" "n \<noteq> 0" "dc \<noteq> 0"
    using assms(3,4) by simp_all
  have item: "fill_redundant dc
                (replicate_nyquist dc (Suc dc)
                   (place_rfft dc (Suc dc) (replicate (n + 1) (replicate (n + 1) 0)) (fftshift x))
                   (fftshift x))
              = mirrored (right_half (fftshift x))" if "x \<in> set (items t)" for x
  proof -
    have "is_matrix n (Suc dc) x" using assms(2) that by (simp add: list_all_iff)
    then have "is_matrix n (Suc dc) (fftshift x)" by (rule fftshift_matrix)
    then show ?thesis using assms(3,4) by (rule symmetrise_item)
  qed
  have "rfft_to_symmetrised_dft_2d t
          = Inr (tmap (\<lambda>x. fill_redundant dc
                (replicate_nyquist dc (Suc dc)
                   (place_rfft dc (Suc dc) (replicate (n + 1) (replicate (n + 1) 0)) (fftshift x))
                   (fftshift x))) t)"
    unfolding rfft_to_symmetrised_dft_2d_def sh
    by (simp add: dc Let_def broadcastable_def tmap_tmap)
  also have "\<dots> = Inr (tmap (\<lambda>x. mirrored (right_half (fftshift x))) t)"
    using item by (simp cong: tmap_cong_items)
  finally show ?thesis .
qed

text \<open>
  C3. For the rfft \<open>X\<close> of a square real image of even side \<open>N > 0\<close>, a matrix of \<open>N\<close> rows
  and \<open>N div 2 + 1\<close> columns or a non-empty batch of them, \<open>rfft_to_symmetrised_dft_2d\<close>
  returns a spectrum \<open>S\<close>, and \<open>symmetrised_dft_to_rfft_2d\<close> on a buffer holding \<open>S\<close>, in
  place or on a clone, returns the matrices of \<open>X\<close> again, value for value: averaging the
  duplicated components gives back what the symmetrisation duplicated. The result always
  has the batch axis.
\<close>

theorem symmetrisation_round_trip_2d:
  assumes "items X \<noteq> []" and "list_all (is_matrix n (n div 2 + 1)) (items X)"
    and "even n" and "0 < n"
  shows "\<exists>S. rfft_to_symmetrised_dft_2d X = Inr S \<and>
           snd (symmetrised_dft_to_rfft_2d (heap @ [S]) (length heap) inplace)
             = Inr (Batch (items X))"
proof -
  define dc where "dc = n div 2"
  have n: "n = 2 * dc" and dc0: "0 < dc"
    using assms(3,4) by (auto simp: dc_def elim!: evenE)
  let ?S = "tmap (\<lambda>x. mirrored (right_half (fftshift x))) X"
  have mats: "list_all (is_matrix n (Suc dc)) (items X)"
    using assms(2) by (simp add: dc_def)
  have S: "rfft_to_symmetrised_dft_2d X = Inr ?S"
    using assms(1) mats n dc0 by (rule rfft_to_symmetrised_dft_2d_run)
  have rh: "is_matrix n (Suc dc) (fftshift x)" if "x \<in> set (items X)" for x
    using mats that by (auto simp: list_all_iff intro: fftshift_matrix)
  have a: "length heap < length (heap @ [?S])" by simp
  have it: "items ((heap @ [?S]) ! length heap) \<noteq> []"
    using assms(1) by (simp add: items_tmap)
  have sq_item: "is_matrix (Suc n) (Suc n) (mirrored (right_half (fftshift x)))"
    if "x \<in> set (items X)" for x
    using mirrored_matrix [OF right_half_rows(1,2) [OF rh [OF that] n dc0]] by (simp add: n)
  have sq: "list_all (is_matrix (Suc n) (Suc n)) (items ((heap @ [?S]) ! length heap))"
    using sq_item by (simp add: items_tmap list_all_iff)
  have round: "ifftshift (map (drop dc) (butlast (fold_halves dc (mirrored (right_half (fftshift x))))))
                = x" if "x \<in> set (items X)" for x
  proof -
    note r = right_half_rows [OF rh [OF that] n dc0]
    have "fold_halves dc (mirrored (right_half (fftshift x))) = mirrored (right_half (fftshift x))"
      using r(1,2,3) by (rule fold_halves_mirrored)
    moreover have "map (drop dc) (butlast (mirrored (right_half (fftshift x))))
                     = butlast (right_half (fftshift x))"
      using r(1,2) by (rule returned_right_half)
    ultimately show ?thesis
      by (simp add: r(4) ifftshift_fftshift)
  qed
  have "snd (symmetrised_dft_to_rfft_2d (heap @ [?S]) (length heap) inplace)
          = Inr (Batch (map (\<lambda>m. ifftshift (map (drop (n div 2)) (butlast m)))
                          (items (tmap (fold_halves (n div 2)) ((heap @ [?S]) ! length heap)))))"
    by (simp add: symmetrised_dft_to_rfft_2d_run [OF a it sq assms(3)])
  also have "\<dots> = Inr (Batch (items X))"
    using round by (simp add: items_tmap dc_def [symmetric] comp_def map_idI)
  finally show ?thesis using S by blast
qed

text \<open>The rfft of a 2 by 2 image, symmetrised and desymmetrised.\<close>

lemma rfft_to_symmetrised_dft_2d_example:
  "rfft_to_symmetrised_dft_2d (Plain [[1, Complex 2 1], [3, 4]])
     = Inr (Plain [[4, 3, 4], [Complex 2 (- 1), 1, Complex 2 1], [4, 3, 4]])"
proof -
  have sh: "last_shape2 (Plain [[1, Complex 2 1], [3, 4]]) = (2, 2)"
    by (simp add: last_shape2_def shape2_def)
  have c: "cnj 4 = 4" "cnj (Complex 2 1) = Complex 2 (- 1)"
    by (simp_all add: complex_eq_iff)
  show ?thesis
    unfolding rfft_to_symmetrised_dft_2d_def sh
    by (simp add: Let_def broadcastable_def fftshift_def fill_redundant_def replicate_nyquist_def
        place_rfft_def put_right_def put_left_def expand_def c numeral_2_eq_2)
qed

theorem symmetrisation_round_trip_2d_witness:
  "\<exists>S. rfft_to_symmetrised_dft_2d (Plain [[1, Complex 2 1], [3, 4]]) = Inr S \<and>
        snd (symmetrised_dft_to_rfft_2d [S] 0 None) = Inr (Batch [[[1, Complex 2 1], [3, 4]]])"
proof -
  have m: "list_all (is_matrix 2 (2 div 2 + 1)) (items (Plain [[1, Complex 2 1], [3, 4]]))"
    by (simp add: is_matrix_def)
  from symmetrisation_round_trip_2d [of "Plain [[1, Complex 2 1], [3, 4]]" 2 "[]" None, OF _ m]
  show ?thesis by simp
qed

subsection \<open>Hermitian symmetry in 3D\<close>

lemma put_right_length: "dc \<le> length row \<Longrightarrow> length (put_right dc n row src) = dc + n"
  by (simp add: put_right_def)

lemma is_volume_row:
  "is_volume d h w v \<Longrightarrow> k < d \<Longrightarrow> i < h \<Longrightarrow> length (v ! k ! i) = w"
  by (simp add: is_volume_def is_matrix_def list_all_length)

lemma is_volume_plane_length: "is_volume d h w v \<Longrightarrow> k < d \<Longrightarrow> length (v ! k) = h"
  by (simp add: is_volume_def is_matrix_def list_all_length)

lemma is_volumeI':
  assumes "length v = d" "\<And>k. k < d \<Longrightarrow> length (v ! k) = h"
    "\<And>k i. k < d \<Longrightarrow> i < h \<Longrightarrow> length (v ! k ! i) = w"
  shows "is_volume d h w v"
  using assms by (simp add: is_volume_def is_matrix_def list_all_length)

lemma place_rfft_3d_volume:
  assumes v: "is_volume (Suc r) (Suc r) (Suc r) output" and s: "length rfft = r"
    and n: "dc + n = Suc r"
  shows "is_volume (Suc r) (Suc r) (Suc r) (place_rfft_3d dc r n output rfft)"
proof (rule is_volumeI')
  note len = is_volume_length [OF v]
  have ne: "output \<noteq> []" using len by auto
  show l: "length (place_rfft_3d dc r n output rfft) = Suc r"
    using len s by (simp add: place_rfft_3d_def)
  fix k assume k: "k < Suc r"
  have pl: "length (output ! k) = Suc r" using v k by (rule is_volume_plane_length)
  have nep: "output ! k \<noteq> []" using pl by auto
  show "length (place_rfft_3d dc r n output rfft ! k) = Suc r"
    using k len s pl is_volume_plane_length [OF v, of r]
    by (auto simp: place_rfft_3d_def nth_append nth_butlast last_conv_nth [OF ne])
  fix i assume i: "i < Suc r"
  have row: "length (output ! k ! i) = Suc r" using v k i by (rule is_volume_row)
  have dcle: "dc \<le> Suc r" using n by simp
  show "length (place_rfft_3d dc r n output rfft ! k ! i) = Suc r"
    using k i len s pl row n dcle is_volume_row [OF v, of r i] is_volume_row [OF v, of k r]
      is_volume_plane_length [OF v, of r]
    by (auto simp: place_rfft_3d_def nth_append nth_butlast last_conv_nth [OF ne]
        last_conv_nth [OF nep] put_right_length)
qed

lemma nyquist_rows_3d_volume:
  assumes v: "is_volume (Suc r) (Suc r) (Suc r) output" and s: "length rfft = r"
    and n: "dc + n = Suc r"
  shows "is_volume (Suc r) (Suc r) (Suc r) (nyquist_rows_3d dc n output rfft)"
proof (rule is_volumeI')
  note len = is_volume_length [OF v]
  have ne: "output \<noteq> []" using len by auto
  show l: "length (nyquist_rows_3d dc n output rfft) = Suc r"
    using len s by (simp add: nyquist_rows_3d_def)
  fix k assume k: "k < Suc r"
  have pl: "length (output ! k) = Suc r" using v k by (rule is_volume_plane_length)
  have nep: "output ! k \<noteq> []" using pl by auto
  show "length (nyquist_rows_3d dc n output rfft ! k) = Suc r"
    using k len s pl is_volume_plane_length [OF v, of r]
    by (auto simp: nyquist_rows_3d_def nth_append nth_butlast last_conv_nth [OF ne])
  fix i assume i: "i < Suc r"
  have row: "length (output ! k ! i) = Suc r" using v k i by (rule is_volume_row)
  have dcle: "dc \<le> Suc r" using n by simp
  show "length (nyquist_rows_3d dc n output rfft ! k ! i) = Suc r"
    using k i len s pl row n dcle is_volume_row [OF v, of r i] is_volume_row [OF v, of k r]
      is_volume_plane_length [OF v, of r]
    by (auto simp: nyquist_rows_3d_def nth_append nth_butlast last_conv_nth [OF ne]
        last_conv_nth [OF nep] put_right_length)
qed

lemma nyquist_plane_3d_volume:
  assumes v: "is_volume (Suc r) (Suc r) (Suc r) output" and n: "dc + n = Suc r"
  shows "is_volume (Suc r) (Suc r) (Suc r) (nyquist_plane_3d dc r n output rfft)"
proof (rule is_volumeI')
  note len = is_volume_length [OF v]
  have ne: "output \<noteq> []" using len by auto
  have lastp: "last output = output ! r" using len by (simp add: last_conv_nth [OF ne])
  have pr: "length (output ! r) = Suc r" using v by (rule is_volume_plane_length) simp
  have nep: "output ! r \<noteq> []" using pr by auto
  show l: "length (nyquist_plane_3d dc r n output rfft) = Suc r"
    using len by (simp add: nyquist_plane_3d_def)
  fix k assume k: "k < Suc r"
  have pl: "length (output ! k) = Suc r" using v k by (rule is_volume_plane_length)
  show "length (nyquist_plane_3d dc r n output rfft ! k) = Suc r"
    using k len pl pr
    by (auto simp: nyquist_plane_3d_def nth_append nth_butlast lastp)
  fix i assume i: "i < Suc r"
  have row: "length (output ! k ! i) = Suc r" using v k i by (rule is_volume_row)
  have dcle: "dc \<le> Suc r" using n by simp
  show "length (nyquist_plane_3d dc r n output rfft ! k ! i) = Suc r"
    using k i len pl pr row n dcle is_volume_row [OF v, of r i] is_volume_row [OF v, of r r]
    by (auto simp: nyquist_plane_3d_def nth_append nth_butlast lastp
        last_conv_nth [OF nep] put_right_length)
qed

lemma nyquist_corner_3d_volume:
  assumes v: "is_volume (Suc r) (Suc r) (Suc r) output" and n: "dc + n = Suc r"
  shows "is_volume (Suc r) (Suc r) (Suc r) (nyquist_corner_3d dc n output rfft)"
proof (rule is_volumeI')
  note len = is_volume_length [OF v]
  have ne: "output \<noteq> []" using len by auto
  have lastp: "last output = output ! r" using len by (simp add: last_conv_nth [OF ne])
  have pr: "length (output ! r) = Suc r" using v by (rule is_volume_plane_length) simp
  have nep: "output ! r \<noteq> []" using pr by auto
  show l: "length (nyquist_corner_3d dc n output rfft) = Suc r"
    using len by (simp add: nyquist_corner_3d_def)
  fix k assume k: "k < Suc r"
  have pl: "length (output ! k) = Suc r" using v k by (rule is_volume_plane_length)
  show "length (nyquist_corner_3d dc n output rfft ! k) = Suc r"
    using k len pl pr
    by (auto simp: nyquist_corner_3d_def nth_append nth_butlast lastp)
  fix i assume i: "i < Suc r"
  have row: "length (output ! k ! i) = Suc r" using v k i by (rule is_volume_row)
  have dcle: "dc \<le> Suc r" using n by simp
  show "length (nyquist_corner_3d dc n output rfft ! k ! i) = Suc r"
    using k i len pl pr row n dcle is_volume_row [OF v, of r i] is_volume_row [OF v, of r r]
    by (auto simp: nyquist_corner_3d_def nth_append nth_butlast lastp
        last_conv_nth [OF nep] put_right_length)
qed

lemma zeros_volume:
  "is_volume (Suc r) (Suc r) (Suc r) (replicate (r + 1) (replicate (r + 1) (replicate (r + 1) z)))"
  by (simp add: is_volume_def is_matrix_def list_all_iff)

lemma fill_redundant_3d_row:
  assumes v: "is_volume (Suc r) (Suc r) (Suc r) D" and r: "r = 2 * dc"
    and z: "z \<le> r" and y: "y \<le> r"
  shows "fill_redundant_3d dc D ! z ! y
           = rev (map cnj (drop (Suc dc) (D ! (r - z) ! (r - y)))) @ drop dc (D ! z ! y)"
proof -
  let ?f = "\<lambda>row. map cnj (drop (dc + 1) row)"
  let ?src = "map (map rev) (map rev (rev (map (map ?f) D)))"
  note len = is_volume_length [OF v]
  have pl: "length (D ! k) = Suc r" if "k \<le> r" for k
    using v that by (intro is_volume_plane_length [OF v]) simp
  have row: "length (D ! k ! i) = Suc r" if "k \<le> r" "i \<le> r" for k i
    using that by (intro is_volume_row [OF v]) simp_all
  have rz: "r - z \<le> r" and ry: "r - y \<le> r" by simp_all
  have sz: "?src ! z = map rev (rev (map ?f (D ! (r - z))))"
    using z len by (simp add: rev_nth)
  have szy: "?src ! z ! y = rev (?f (D ! (r - z) ! (r - y)))"
    unfolding sz using y pl [OF rz] by (simp add: rev_nth)
  have lsrc: "length ?src = Suc r" "length (?src ! z) = Suc r"
    using z len pl [OF rz] by (simp_all add: rev_nth)
  have "fill_redundant_3d dc D ! z ! y = put_left dc (D ! z ! y) (?src ! z ! y)"
    unfolding fill_redundant_3d_def
    using z y len pl [OF z] lsrc by (simp del: map_map)
  also have "\<dots> = rev (?f (D ! (r - z) ! (r - y))) @ drop dc (D ! z ! y)"
    unfolding szy using row [OF rz ry] r by (simp add: put_left_def expand_same)
  finally show ?thesis by simp
qed

lemma fill_redundant_3d_volume:
  assumes v: "is_volume (Suc r) (Suc r) (Suc r) D" and r: "r = 2 * dc"
  shows "is_volume (Suc r) (Suc r) (Suc r) (fill_redundant_3d dc D)"
proof (rule is_volumeI')
  note len = is_volume_length [OF v]
  show "length (fill_redundant_3d dc D) = Suc r"
    using len by (simp add: fill_redundant_3d_def)
  fix k assume k: "k < Suc r"
  have rk: "r - k < Suc r" by simp
  show "length (fill_redundant_3d dc D ! k) = Suc r"
    using k len is_volume_plane_length [OF v k] is_volume_plane_length [OF v rk]
    by (simp add: fill_redundant_3d_def rev_nth)
  fix i assume i: "i < Suc r"
  have ri: "r - i < Suc r" by simp
  have "length (fill_redundant_3d dc D ! k ! i) = (Suc r - Suc dc) + (Suc r - dc)"
    using k i is_volume_row [OF v k i] is_volume_row [OF v rk ri]
    by (simp add: fill_redundant_3d_row [OF v r])
  then show "length (fill_redundant_3d dc D ! k ! i) = Suc r"
    using r by simp
qed

lemma fill_redundant_3d_hermitian:
  assumes v: "is_volume (Suc r) (Suc r) (Suc r) D" and r: "r = 2 * dc"
    and z: "z \<le> r" and y: "y \<le> r" and x: "x < dc"
  shows "fill_redundant_3d dc D ! z ! y ! x
           = cnj (fill_redundant_3d dc D ! (r - z) ! (r - y) ! (r - x))"
proof -
  have rz: "r - z \<le> r" and ry: "r - y \<le> r" by simp_all
  have rr: "r - (r - z) = z" "r - (r - y) = y" using z y by simp_all
  have len1: "length (D ! (r - z) ! (r - y)) = Suc r"
    by (rule is_volume_row [OF v]) simp_all
  have len2: "length (D ! z ! y) = Suc r"
    using z y by (intro is_volume_row [OF v]) simp_all
  have "fill_redundant_3d dc D ! z ! y ! x
          = rev (map cnj (drop (Suc dc) (D ! (r - z) ! (r - y)))) ! x"
    using x len1 r by (simp add: fill_redundant_3d_row [OF v r z y] nth_append)
  also have "\<dots> = cnj (D ! (r - z) ! (r - y) ! (r - x))"
  proof -
    have "Suc dc + (dc - Suc x) = r - x" using x r by simp
    then show ?thesis
      using x len1 r by (simp add: rev_nth)
  qed
  finally have lhs: "fill_redundant_3d dc D ! z ! y ! x = cnj (D ! (r - z) ! (r - y) ! (r - x))" .
  have row': "fill_redundant_3d dc D ! (r - z) ! (r - y)
                = rev (map cnj (drop (Suc dc) (D ! z ! y))) @ drop dc (D ! (r - z) ! (r - y))"
    using fill_redundant_3d_row [OF v r rz ry] by (simp only: rr)
  have l: "length (rev (map cnj (drop (Suc dc) (D ! z ! y)))) = dc"
    using len2 r by simp
  have ge: "\<not> r - x < dc" using x r by simp
  have "fill_redundant_3d dc D ! (r - z) ! (r - y) ! (r - x)
          = drop dc (D ! (r - z) ! (r - y)) ! (r - x - dc)"
    unfolding row' nth_append l using ge by (simp only: if_False)
  also have "\<dots> = D ! (r - z) ! (r - y) ! (dc + (r - x - dc))"
    using len1 r by (intro nth_drop) simp
  also have "dc + (r - x - dc) = r - x" using x r by simp
  finally show ?thesis using lhs by simp
qed

lemma fftshift_length [simp]: "length (fftshift xs) = length xs"
  by (simp add: fftshift_def)

lemma rfft_to_symmetrised_dft_3d_run:
  assumes "items t \<noteq> []" and "list_all (is_volume n n (Suc dc)) (items t)"
    and "n = 2 * dc" and "0 < dc"
  shows "rfft_to_symmetrised_dft_3d t
           = Inr (tmap (\<lambda>x. fill_redundant_3d dc
                   (nyquist_corner_3d dc (Suc dc)
                      (nyquist_plane_3d dc n (Suc dc)
                         (nyquist_rows_3d dc (Suc dc)
                            (place_rfft_3d dc n (Suc dc)
                               (replicate (n + 1) (replicate (n + 1) (replicate (n + 1) 0)))
                               (fftshift (map fftshift x)))
                            (fftshift (map fftshift x)))
                         (fftshift (map fftshift x)))
                      (fftshift (map fftshift x)))) t)"
proof -
  have sh: "last_shape3 t = (n, n, Suc dc)"
    using assms by (simp add: last_shape3_volumes)
  have dc: "n div 2 = dc" "Suc n - dc = Suc dc" "n - dc = dc" "n \<noteq> 0" "dc \<noteq> 0"
    using assms(3,4) by simp_all
  show ?thesis
    unfolding rfft_to_symmetrised_dft_3d_def sh
    by (simp add: dc Let_def broadcastable_def tmap_tmap)
qed

lemma symmetrised_volume:
  assumes "length s = n" and "n = 2 * dc"
  defines "D \<equiv> nyquist_corner_3d dc (Suc dc)
                 (nyquist_plane_3d dc n (Suc dc)
                    (nyquist_rows_3d dc (Suc dc)
                       (place_rfft_3d dc n (Suc dc)
                          (replicate (n + 1) (replicate (n + 1) (replicate (n + 1) 0))) s) s) s) s"
  shows "is_volume (Suc n) (Suc n) (Suc n) D"
proof -
  have n: "dc + Suc dc = Suc n" using assms(2) by simp
  show ?thesis
    unfolding D_def
    by (intro nyquist_corner_3d_volume nyquist_plane_3d_volume nyquist_rows_3d_volume
        place_rfft_3d_volume zeros_volume assms(1) n)
qed

text \<open>
  C4. For the rfft of a cubic real volume of even side \<open>N > 0\<close>, a volume of \<open>N\<close> planes of
  \<open>N\<close> rows and \<open>N div 2 + 1\<close> columns or a non-empty batch of them,
  \<open>rfft_to_symmetrised_dft_3d\<close> returns a batch of as many volumes of side \<open>N + 1\<close>, and in
  each the value at every \<open>(z, y, x)\<close> with \<open>x < N div 2\<close> is the complex conjugate of the
  value at the reflected point \<open>(N - z, N - y, N - x)\<close>.
\<close>

theorem rfft_to_symmetrised_dft_3d_hermitian:
  assumes "items t \<noteq> []" and "list_all (is_volume n n (n div 2 + 1)) (items t)"
    and "even n" and "0 < n"
  shows "\<exists>out. rfft_to_symmetrised_dft_3d t = Inr out \<and>
           length (items out) = length (items t) \<and>
           (\<forall>b < length (items out).
              is_volume (n + 1) (n + 1) (n + 1) (items out ! b) \<and>
              (\<forall>z \<le> n. \<forall>y \<le> n. \<forall>x < n div 2.
                 items out ! b ! z ! y ! x
                   = cnj (items out ! b ! (n - z) ! (n - y) ! (n - x))))"
proof -
  define dc where "dc = n div 2"
  have n: "n = 2 * dc" and dc0: "0 < dc"
    using assms(3,4) by (auto simp: dc_def elim!: evenE)
  let ?sym = "\<lambda>x. fill_redundant_3d dc
                   (nyquist_corner_3d dc (Suc dc)
                      (nyquist_plane_3d dc n (Suc dc)
                         (nyquist_rows_3d dc (Suc dc)
                            (place_rfft_3d dc n (Suc dc)
                               (replicate (n + 1) (replicate (n + 1) (replicate (n + 1) 0)))
                               (fftshift (map fftshift x)))
                            (fftshift (map fftshift x)))
                         (fftshift (map fftshift x)))
                      (fftshift (map fftshift x)))"
  have vols: "list_all (is_volume n n (Suc dc)) (items t)"
    using assms(2) by (simp add: dc_def)
  have run: "rfft_to_symmetrised_dft_3d t = Inr (tmap ?sym t)"
    using assms(1) vols n dc0 by (rule rfft_to_symmetrised_dft_3d_run)
  have item: "is_volume (n + 1) (n + 1) (n + 1) (items (tmap ?sym t) ! b) \<and>
              (\<forall>z \<le> n. \<forall>y \<le> n. \<forall>x < n div 2.
                 items (tmap ?sym t) ! b ! z ! y ! x
                   = cnj (items (tmap ?sym t) ! b ! (n - z) ! (n - y) ! (n - x)))"
    if b: "b < length (items t)" for b
  proof -
    let ?x = "items t ! b"
    have "is_volume n n (Suc dc) ?x" using vols b by (simp add: list_all_length)
    then have len: "length (fftshift (map fftshift ?x)) = n"
      by (simp add: is_volume_def)
    note D = symmetrised_volume [OF len n]
    have eq: "items (tmap ?sym t) ! b = ?sym ?x"
      using b by (simp add: items_tmap)
    show ?thesis
      unfolding eq
      using fill_redundant_3d_volume [OF D n] fill_redundant_3d_hermitian [OF D n]
      by (simp add: dc_def)
  qed
  show ?thesis
    using run item by (intro exI [of _ "tmap ?sym t"]) (simp add: items_tmap)
qed

theorem rfft_to_symmetrised_dft_3d_hermitian_witness:
  "\<exists>out. rfft_to_symmetrised_dft_3d (Plain [[[1, 2], [3, 4]], [[5, 6], [7, Complex 8 1]]]) = Inr out \<and>
          items out ! 0 ! 0 ! 0 ! 0 = cnj (items out ! 0 ! 2 ! 2 ! 2) \<and>
          items out ! 0 ! 1 ! 2 ! 0 = cnj (items out ! 0 ! 1 ! 0 ! 2)"
proof -
  let ?t = "Plain [[[1, 2], [3, 4]], [[5, 6], [7, Complex 8 1]]]"
  have v: "list_all (is_volume 2 2 (2 div 2 + 1)) (items ?t)"
    by (simp add: is_volume_def is_matrix_def)
  from rfft_to_symmetrised_dft_3d_hermitian [of ?t 2, OF _ v]
  obtain out where run: "rfft_to_symmetrised_dft_3d ?t = Inr out"
    and len: "length (items out) = length (items ?t)"
    and pts: "\<forall>b < length (items out).
              is_volume (2 + 1) (2 + 1) (2 + 1) (items out ! b) \<and>
              (\<forall>z \<le> 2. \<forall>y \<le> 2. \<forall>x < 2 div 2.
                 items out ! b ! z ! y ! x
                   = cnj (items out ! b ! (2 - z) ! (2 - y) ! (2 - x)))"
    by auto
  have h: "items out ! 0 ! z ! y ! x = cnj (items out ! 0 ! (2 - z) ! (2 - y) ! (2 - x))"
    if "z \<le> 2" "y \<le> 2" "x < 2 div 2" for z y x
    using pts len that by simp
  from h [of 0 0 0] h [of 1 2 0] run show ?thesis by simp
qed

end
